theory Spec2Isabelle
  imports Main "HOL-Library.Sublist"
begin

section \<open>Data model of bot.py\<close>

text \<open>
  Timestamps are \<open>datetime\<close> values, modelled as integer microseconds (the resolution of
  \<open>datetime\<close>); \<open>timedelta.total_seconds() < n\<close> becomes a comparison of microseconds with
  \<open>n * 1000000\<close>. Message text is modelled as ASCII: \<open>str.lower\<close> maps \<open>A\<close>..\<open>Z\<close> to
  \<open>a\<close>..\<open>z\<close> and leaves every other character alone.
\<close>

type_synonym timestamp = int

text \<open>Table \<open>groups\<close> (class \<open>Group\<close>), the columns the handlers read.\<close>

record group =
  anti_flood_enabled :: bool
  anti_flood_limit :: int
  anti_flood_time :: int
  mute_on_warn_count :: int
  ban_on_warn_count :: int
  lock_photos :: bool
  lock_videos :: bool
  lock_links :: bool
  lock_forwards :: bool
  lock_stickers :: bool
  lock_gifs :: bool
  lock_voice :: bool
  lock_documents :: bool
  lock_videonotes :: bool
  lock_polls :: bool
  lock_games :: bool

text \<open>The column defaults of \<open>Group\<close>: what \<open>Group(id=chat_id, title=chat_title)\<close> stores.\<close>

definition new_group :: group where
  "new_group = \<lparr>anti_flood_enabled = True, anti_flood_limit = 5, anti_flood_time = 10,
     mute_on_warn_count = 3, ban_on_warn_count = 5,
     lock_photos = False, lock_videos = False, lock_links = False, lock_forwards = False,
     lock_stickers = False, lock_gifs = False, lock_voice = False, lock_documents = False,
     lock_videonotes = False, lock_polls = False, lock_games = False\<rparr>"

text \<open>Table \<open>group_users\<close> (class \<open>GroupUser\<close>): one row per group and user.\<close>

record group_user =
  group_id :: int
  user_id :: int
  warns :: int
  is_muted :: bool
  mute_until :: "timestamp option"
  last_message_time :: "timestamp option"
  message_count_in_interval :: int

text \<open>\<open>GroupUser(group_id=group_id, user_id=user_id)\<close> with the column defaults.\<close>

definition new_group_user :: "int \<Rightarrow> int \<Rightarrow> group_user" where
  "new_group_user g u = \<lparr>group_id = g, user_id = u, warns = 0, is_muted = False,
     mute_until = None, last_message_time = None, message_count_in_interval = 0\<rparr>"

text \<open>
  Table \<open>admin_logs\<close> (class \<open>AdminLog\<close>). The reason column holds formatted text; the model
  keeps the values that are formatted into it.
\<close>

datatype reason = Text string | Reached int | UsedForbiddenWord string

record admin_log =
  log_group_id :: int
  admin_id :: int
  action :: string
  target_user_id :: "int option"
  log_reason :: "reason option"

text \<open>
  The Bot API. A request either succeeds or raises; \<open>BadRequest\<close> is the subclass of
  \<open>TelegramError\<close> that the handlers catch on its own, \<open>OtherTelegramError\<close> stands for every
  other \<open>TelegramError\<close> (\<open>Forbidden\<close>, \<open>NetworkError\<close>, \<open>RetryAfter\<close>, ...).
\<close>

datatype tg_result = Success | BadRequest | OtherTelegramError

datatype member_status = OWNER | ADMINISTRATOR | MEMBER | RESTRICTED | LEFT | BANNED

text \<open>
  The texts sent to the chat are Persian sentences with values formatted into them; a notice
  is modelled by its kind and those values.
\<close>

datatype reply_part =
    Warned int "string option"
  | AutoBanned int
  | BanFailed tg_result
  | AutoMuted int
  | MuteFailed tg_result

datatype notice =
    MuteExpired
  | FloodWarning int
  | WordWarning string int
  | BanNotice int
  | MuteNotice int
  | WarnReply "reply_part list"
  | CannotWarnSelf
  | CannotWarnBot
  | CannotWarnAdmin
  | UserNotFound
  | Unwarned int
  | NoWarns
  | NotInGroup
  | CannotBanSelf
  | CannotBanBot
  | CannotBanAdmin
  | BanReply "string option"
  | BanError tg_result

datatype request =
    DeleteMessage int int
  | RestrictMute int int timestamp
  | RestrictLift int int
  | BanChatMember int int
  | SendMessage int notice
  | ReplyText notice

text \<open>What a handler leaves behind, oldest first: requests issued and audit rows written.\<close>

datatype event = Request request | Log admin_log

text \<open>
  The places of \<open>handle_all_messages\<close>, \<open>warn_command\<close> and \<open>ban_command\<close> where a Bot API
  request is awaited. The environment fixes the outcome of each one separately.
\<close>

datatype rule = Flood | Word

datatype site =
    SystemDelete
  | Unmute
  | UnmuteReply
  | MutedDelete
  | WarnDelete rule
  | WarnMessage rule
  | Ban rule
  | BanMessage rule
  | Mute rule
  | MuteMessage rule
  | MediaDelete
  | CmdBan
  | CmdMute

datatype admin_check = AtExpired | AtMuted | AtFlood | AtWord | AtMedia

record env =
  OWNER_USER_ID :: int
  bot_id :: int
  utcnow :: timestamp
  localnow :: timestamp
  sender_member :: "member_status option"
  bot_member :: "admin_check \<Rightarrow> member_status option"
  api :: "site \<Rightarrow> tg_result"

text \<open>The parts of \<open>update.message\<close> that \<open>handle_all_messages\<close> reads.\<close>

record message =
  chat_id :: int
  from_user :: int
  message_id :: int
  msg_text :: "string option"
  new_chat_members :: bool
  left_chat_member :: bool
  photo :: bool
  video :: bool
  url_entity :: bool
  forward_from :: bool
  forward_from_chat :: bool
  sticker :: bool
  animation :: bool
  voice :: bool
  document :: bool
  video_note :: bool
  poll :: bool
  game :: bool

text \<open>The database and the history of requests and audit rows.\<close>

record world =
  groups :: "int \<Rightarrow> group option"
  group_users :: "group_user list"
  forbidden_words :: "(int \<times> string) list"
  history :: "event list"

section \<open>Database helper functions\<close>

definition row_of :: "int \<Rightarrow> int \<Rightarrow> group_user \<Rightarrow> bool" where
  "row_of g u r = (group_id r = g \<and> user_id r = u)"

text \<open>\<open>session.query(GroupUser).filter_by(group_id=.., user_id=..).first()\<close>\<close>

definition query_group_user :: "group_user list \<Rightarrow> int \<Rightarrow> int \<Rightarrow> group_user option" where
  "query_group_user rows g u = find (row_of g u) rows"

text \<open>Writing the attributes of the loaded row back on \<open>session.commit()\<close>.\<close>

fun commit_row :: "int \<Rightarrow> int \<Rightarrow> group_user \<Rightarrow> group_user list \<Rightarrow> group_user list" where
  "commit_row g u r' [] = []"
| "commit_row g u r' (r # rows) =
     (if row_of g u r then r' # rows else r # commit_row g u r' rows)"

text \<open>\<open>session.delete(group_user)\<close> followed by \<open>session.commit()\<close>.\<close>

fun delete_row :: "int \<Rightarrow> int \<Rightarrow> group_user list \<Rightarrow> group_user list" where
  "delete_row g u [] = []"
| "delete_row g u (r # rows) = (if row_of g u r then rows else r # delete_row g u rows)"

definition get_or_create_group :: "world \<Rightarrow> int \<Rightarrow> group \<times> world" where
  "get_or_create_group w c =
     (case groups w c of
        Some g \<Rightarrow> (g, w)
      | None \<Rightarrow> (new_group, w\<lparr>groups := (groups w)(c \<mapsto> new_group)\<rparr>))"

definition get_or_create_group_user :: "world \<Rightarrow> int \<Rightarrow> int \<Rightarrow> group_user \<times> world" where
  "get_or_create_group_user w g u =
     (case query_group_user (group_users w) g u of
        Some r \<Rightarrow> (r, w)
      | None \<Rightarrow> (new_group_user g u, w\<lparr>group_users := group_users w @ [new_group_user g u]\<rparr>))"

text \<open>
  \<open>str.lower\<close> on one character: the codes 65 to 90 (\<open>A\<close> to \<open>Z\<close>) gain 32, which is
  setting bit 5 of the code.
\<close>

definition lower_char :: "char \<Rightarrow> char" where
  "lower_char c =
     (if 65 \<le> (of_char c :: nat) \<and> (of_char c :: nat) \<le> 90 then
        (case c of Char b0 b1 b2 b3 b4 b5 b6 b7 \<Rightarrow> Char b0 b1 b2 b3 b4 True b6 b7)
      else c)"

definition lower :: "string \<Rightarrow> string" where
  "lower s = map lower_char s"

definition add_forbidden_word :: "world \<Rightarrow> int \<Rightarrow> string \<Rightarrow> bool \<times> world" where
  "add_forbidden_word w g word =
     (if (g, lower word) \<in> set (forbidden_words w) then (False, w)
      else (True, w\<lparr>forbidden_words := forbidden_words w @ [(g, lower word)]\<rparr>))"

definition get_forbidden_words :: "world \<Rightarrow> int \<Rightarrow> string list" where
  "get_forbidden_words w g = map snd (filter (\<lambda>fw. fst fw = g) (forbidden_words w))"

definition log_admin_action ::
  "int \<Rightarrow> int \<Rightarrow> string \<Rightarrow> int option \<Rightarrow> reason option \<Rightarrow> event" where
  "log_admin_action g a act t r =
     Log \<lparr>log_group_id = g, admin_id = a, action = act, target_user_id = t, log_reason = r\<rparr>"

section \<open>Permission helpers\<close>

definition is_admin_status :: "member_status option \<Rightarrow> bool" where
  "is_admin_status m =
     (case m of None \<Rightarrow> False | Some s \<Rightarrow> s = ADMINISTRATOR \<or> s = OWNER)"

text \<open>
  \<open>lookup\<close> is what \<open>get_chat_member\<close> answers, \<open>None\<close> when it raises \<open>TelegramError\<close>.
\<close>

definition is_user_admin_or_owner :: "env \<Rightarrow> int \<Rightarrow> member_status option \<Rightarrow> bool" where
  "is_user_admin_or_owner e u lookup =
     (if u = OWNER_USER_ID e then True else is_admin_status lookup)"

definition is_bot_admin :: "env \<Rightarrow> admin_check \<Rightarrow> bool" where
  "is_bot_admin e k = is_admin_status (bot_member e k)"

section \<open>The message pipeline: \<open>handle_all_messages\<close>\<close>

text \<open>
  Every attribute change of the loaded \<open>group_user\<close> is followed by \<open>session.commit()\<close>
  before the handler can leave, and no path rolls back, so the pipeline is modelled on the
  row itself: a step either goes on to the next section (\<open>Proceed\<close>) or ends the handler
  (\<open>Return\<close>, also when an exception reaches an \<open>except\<close> clause); the row is \<open>None\<close> after
  \<open>session.delete(group_user)\<close>.
\<close>

datatype flow = Proceed group_user "event list" | Return "group_user option" "event list"

fun final_row :: "flow \<Rightarrow> group_user option" where
  "final_row (Proceed r es) = Some r"
| "final_row (Return ro es) = ro"

fun events_of :: "flow \<Rightarrow> event list" where
  "events_of (Proceed r es) = es"
| "events_of (Return ro es) = es"

fun after :: "event list \<Rightarrow> flow \<Rightarrow> flow" where
  "after es (Proceed r es') = Proceed r (es @ es')"
| "after es (Return ro es') = Return ro (es @ es')"

fun then_stage :: "flow \<Rightarrow> (group_user \<Rightarrow> flow) \<Rightarrow> flow" where
  "then_stage (Proceed r es) f = after es (f r)"
| "then_stage (Return ro es) f = Return ro es"

definition has_text :: "message \<Rightarrow> bool" where
  "has_text m = (case msg_text m of None \<Rightarrow> False | Some t \<Rightarrow> t \<noteq> [])"

definition delete_message :: "message \<Rightarrow> event" where
  "delete_message m = Request (DeleteMessage (chat_id m) (message_id m))"

text \<open>6.1 System message cleanup.\<close>

definition system_cleanup :: "env \<Rightarrow> message \<Rightarrow> group_user \<Rightarrow> flow" where
  "system_cleanup e m r =
     (if new_chat_members m \<or> left_chat_member m then
        (case api e SystemDelete of
           Success \<Rightarrow> Return (Some r) [delete_message m]
         | BadRequest \<Rightarrow> Proceed r [delete_message m]
         | OtherTelegramError \<Rightarrow> Return (Some r) [delete_message m])
      else Proceed r [])"

text \<open>6.2 Muted users: an expired mute is lifted, a running one deletes the message.\<close>

definition mute_expired :: "env \<Rightarrow> group_user \<Rightarrow> bool" where
  "mute_expired e r = (case mute_until r of None \<Rightarrow> False | Some t \<Rightarrow> t < utcnow e)"

definition muted_check :: "env \<Rightarrow> message \<Rightarrow> group_user \<Rightarrow> flow" where
  "muted_check e m r =
     (if is_muted r then
        if mute_expired e r then
          if is_bot_admin e AtExpired then
            Proceed (r\<lparr>is_muted := False, mute_until := None\<rparr>)
              (Request (RestrictLift (chat_id m) (from_user m)) #
                (if api e Unmute = Success then
                   Request (ReplyText MuteExpired) #
                     (if api e UnmuteReply = Success then
                        [log_admin_action (chat_id m) (bot_id e) ''auto_unmute''
                           (Some (from_user m)) (Some (Text ''Mute expired''))]
                      else [])
                 else []))
          else Proceed r []
        else Return (Some r) (if is_bot_admin e AtMuted then [delete_message m] else [])
      else Proceed r [])"

text \<open>6.3 and 6.4 share the warn, ban and mute steps; only the texts differ.\<close>

datatype violation = Flooding | ForbiddenWord string

fun rule_of :: "violation \<Rightarrow> rule" where
  "rule_of Flooding = Flood"
| "rule_of (ForbiddenWord w) = Word"

fun warn_notice :: "violation \<Rightarrow> int \<Rightarrow> notice" where
  "warn_notice Flooding n = FloodWarning n"
| "warn_notice (ForbiddenWord w) n = WordWarning w n"

fun warn_action :: "violation \<Rightarrow> string" where
  "warn_action Flooding = ''auto_warn_flood''"
| "warn_action (ForbiddenWord w) = ''auto_warn_forbidden_word''"

fun warn_reason :: "violation \<Rightarrow> reason" where
  "warn_reason Flooding = Text ''Flooding detected''"
| "warn_reason (ForbiddenWord w) = UsedForbiddenWord w"

fun ban_action :: "violation \<Rightarrow> string" where
  "ban_action Flooding = ''auto_ban_flood''"
| "ban_action (ForbiddenWord w) = ''auto_ban_forbidden_word''"

fun mute_action :: "violation \<Rightarrow> string" where
  "mute_action Flooding = ''auto_mute_flood''"
| "mute_action (ForbiddenWord w) = ''auto_mute_forbidden_word''"

text \<open>\<open>timedelta(minutes=60)\<close> in microseconds.\<close>

definition mute_duration :: int where
  "mute_duration = 3600000000"

text \<open>The check for mute or ban after the warn; \<open>r\<close> already holds the new warn count.\<close>

definition escalate :: "env \<Rightarrow> group \<Rightarrow> message \<Rightarrow> violation \<Rightarrow> group_user \<Rightarrow> flow" where
  "escalate e g m v r =
     (if ban_on_warn_count g \<le> warns r then
        (if api e (Ban (rule_of v)) = Success then
           Return None
             (Request (BanChatMember (chat_id m) (from_user m)) #
              Request (SendMessage (chat_id m) (BanNotice (ban_on_warn_count g))) #
              (if api e (BanMessage (rule_of v)) = Success then
                 [log_admin_action (chat_id m) (bot_id e) (ban_action v) (Some (from_user m))
                    (Some (Reached (ban_on_warn_count g)))]
               else []))
         else Return (Some r) [Request (BanChatMember (chat_id m) (from_user m))])
      else if mute_on_warn_count g \<le> warns r then
        (if api e (Mute (rule_of v)) = Success then
           Return (Some (r\<lparr>is_muted := True, mute_until := Some (localnow e + mute_duration)\<rparr>))
             (Request (RestrictMute (chat_id m) (from_user m) (localnow e + mute_duration)) #
              Request (SendMessage (chat_id m) (MuteNotice (mute_on_warn_count g))) #
              (if api e (MuteMessage (rule_of v)) = Success then
                 [log_admin_action (chat_id m) (bot_id e) (mute_action v) (Some (from_user m))
                    (Some (Reached (mute_on_warn_count g)))]
               else []))
         else Return (Some r)
                [Request (RestrictMute (chat_id m) (from_user m) (localnow e + mute_duration))])
      else Return (Some r) [])"

text \<open>
  The \<open>try\<close> block entered when the bot is admin: delete the message, add the warn, tell
  the chat, write the audit row, then escalate. Any exception ends the handler.
\<close>

definition auto_warn :: "env \<Rightarrow> group \<Rightarrow> message \<Rightarrow> violation \<Rightarrow> group_user \<Rightarrow> flow" where
  "auto_warn e g m v r =
     (if api e (WarnDelete (rule_of v)) = Success then
        (if api e (WarnMessage (rule_of v)) = Success then
           after
             [delete_message m,
              Request (SendMessage (chat_id m) (warn_notice v (warns r + 1))),
              log_admin_action (chat_id m) (bot_id e) (warn_action v) (Some (from_user m))
                (Some (warn_reason v))]
             (escalate e g m v (r\<lparr>warns := warns r + 1\<rparr>))
         else Return (Some (r\<lparr>warns := warns r + 1\<rparr>))
                [delete_message m,
                 Request (SendMessage (chat_id m) (warn_notice v (warns r + 1)))])
      else Return (Some r) [delete_message m])"

text \<open>6.3 Anti-flood: the counter update, then the limit.\<close>

definition within_interval :: "group \<Rightarrow> timestamp \<Rightarrow> group_user \<Rightarrow> bool" where
  "within_interval g now r =
     (case last_message_time r of
        None \<Rightarrow> False
      | Some t \<Rightarrow> now - t < anti_flood_time g * 1000000)"

definition flood_count :: "group \<Rightarrow> timestamp \<Rightarrow> group_user \<Rightarrow> group_user" where
  "flood_count g now r =
     r\<lparr>message_count_in_interval :=
          (if within_interval g now r then message_count_in_interval r + 1 else 1),
       last_message_time := Some now\<rparr>"

definition anti_flood :: "env \<Rightarrow> group \<Rightarrow> message \<Rightarrow> group_user \<Rightarrow> flow" where
  "anti_flood e g m r =
     (if anti_flood_enabled g \<and> has_text m then
        (if anti_flood_limit g < message_count_in_interval (flood_count g (utcnow e) r) then
           (if is_bot_admin e AtFlood then auto_warn e g m Flooding (flood_count g (utcnow e) r)
            else Return (Some (flood_count g (utcnow e) r)) [])
         else Proceed (flood_count g (utcnow e) r) [])
      else Proceed r [])"

text \<open>6.4 Forbidden words: the \<open>for\<close> loop stops at the first word found in the text.\<close>

fun first_forbidden :: "string list \<Rightarrow> string \<Rightarrow> string option" where
  "first_forbidden [] t = None"
| "first_forbidden (word # ws) t = (if sublist word t then Some word else first_forbidden ws t)"

definition word_filter :: "env \<Rightarrow> group \<Rightarrow> string list \<Rightarrow> message \<Rightarrow> group_user \<Rightarrow> flow" where
  "word_filter e g ws m r =
     (case msg_text m of
        None \<Rightarrow> Proceed r []
      | Some t \<Rightarrow>
          if t = [] then Proceed r []
          else (case first_forbidden ws (lower t) of
                  None \<Rightarrow> Proceed r []
                | Some word \<Rightarrow>
                    if is_bot_admin e AtWord then auto_warn e g m (ForbiddenWord word) r
                    else Return (Some r) []))"

text \<open>6.5 Media locks: the first branch of the \<open>if\<close>/\<open>elif\<close> chain that applies.\<close>

definition locked_media :: "group \<Rightarrow> message \<Rightarrow> string option" where
  "locked_media g m =
     (if lock_photos g \<and> photo m then Some ''Photo locked''
      else if lock_videos g \<and> video m then Some ''Video locked''
      else if lock_links g \<and> url_entity m then Some ''Link locked''
      else if (lock_forwards g \<and> forward_from m) \<or> forward_from_chat m
        then Some ''Forward locked''
      else if lock_stickers g \<and> sticker m then Some ''Sticker locked''
      else if lock_gifs g \<and> animation m then Some ''GIF locked''
      else if lock_voice g \<and> voice m then Some ''Voice locked''
      else if lock_documents g \<and> document m then Some ''Document locked''
      else if lock_videonotes g \<and> video_note m then Some ''Video note locked''
      else if lock_polls g \<and> poll m then Some ''Poll locked''
      else if lock_games g \<and> game m then Some ''Game locked''
      else None)"

definition media_locks :: "env \<Rightarrow> group \<Rightarrow> message \<Rightarrow> group_user \<Rightarrow> flow" where
  "media_locks e g m r =
     (if is_bot_admin e AtMedia then
        (case locked_media g m of
           None \<Rightarrow> Proceed r []
         | Some label \<Rightarrow>
             if api e MediaDelete = Success then
               Return (Some r)
                 [delete_message m,
                  log_admin_action (chat_id m) (bot_id e) ''delete_locked_media''
                    (Some (from_user m)) (Some (Text label))]
             else Return (Some r) [delete_message m])
      else Proceed r [])"

text \<open>The rule sections 6.3 to 6.5 in order.\<close>

definition rules :: "env \<Rightarrow> group \<Rightarrow> string list \<Rightarrow> message \<Rightarrow> group_user \<Rightarrow> flow" where
  "rules e g ws m r =
     then_stage (then_stage (anti_flood e g m r) (word_filter e g ws m)) (media_locks e g m)"

text \<open>The body of the \<open>try\<close> of \<open>handle_all_messages\<close>, sections 6.1 to 6.5 in order.\<close>

definition moderate :: "env \<Rightarrow> group \<Rightarrow> string list \<Rightarrow> message \<Rightarrow> group_user \<Rightarrow> flow" where
  "moderate e g ws m r =
     then_stage (then_stage (system_cleanup e m r) (muted_check e m)) (rules e g ws m)"

definition store_row :: "int \<Rightarrow> int \<Rightarrow> group_user option \<Rightarrow> group_user list \<Rightarrow> group_user list" where
  "store_row g u ro rows =
     (case ro of Some r \<Rightarrow> commit_row g u r rows | None \<Rightarrow> delete_row g u rows)"

definition exempt :: "env \<Rightarrow> message \<Rightarrow> bool" where
  "exempt e m =
     (from_user m = bot_id e \<or> is_user_admin_or_owner e (from_user m) (sender_member e))"

definition handle_all_messages :: "env \<Rightarrow> world \<Rightarrow> message \<Rightarrow> world" where
  "handle_all_messages e w m =
     (if exempt e m then w
      else
        (case get_or_create_group w (chat_id m) of
           (g, w1) \<Rightarrow>
             (case get_or_create_group_user w1 (chat_id m) (from_user m) of
                (r, w2) \<Rightarrow>
                  (let out = moderate e g (get_forbidden_words w2 (chat_id m)) m r
                   in w2\<lparr>group_users :=
                            store_row (chat_id m) (from_user m) (final_row out) (group_users w2),
                          history := history w2 @ events_of out\<rparr>))))"

section \<open>Commands: \<open>/warn\<close>, \<open>/unwarn\<close>, \<open>/ban\<close>\<close>

text \<open>
  A command as its handler body sees it, once \<open>require_admin_permission\<close> has let it
  through: the chat, the admin who sent it, the target found by
  \<open>extract_target_user_id\<close> (\<open>None\<close> when that helper found none and answered itself), the
  reason given after the target (\<open>None\<close> stands for the default text), and what the two
  lookups about the target answer: \<open>get_chat_member\<close> on the chat (\<open>None\<close> when it raises)
  and whether \<open>get_user_info_from_telegram\<close> returns a dictionary.
\<close>

record command =
  cmd_chat :: int
  cmd_admin :: int
  cmd_target :: "int option"
  cmd_reason :: "string option"
  target_member :: "member_status option"
  target_info :: bool

definition reply_text :: "world \<Rightarrow> notice \<Rightarrow> world" where
  "reply_text w n = w\<lparr>history := history w @ [Request (ReplyText n)]\<rparr>"

text \<open>
  The automatic moderation of \<open>warn_command\<close>, entered after the new warn count is committed
  and the \<open>warn\<close> audit row written. \<open>r\<close> is the row with the new count.
\<close>

definition warn_escalate ::
  "env \<Rightarrow> world \<Rightarrow> command \<Rightarrow> int \<Rightarrow> group_user \<Rightarrow> int \<Rightarrow> int \<Rightarrow> world" where
  "warn_escalate e w c t r mute_on_warn ban_on_warn =
     (if ban_on_warn \<le> warns r then
        (if api e CmdBan = Success then
           w\<lparr>group_users := delete_row (cmd_chat c) t (group_users w),
             history := history w @
               [Request (BanChatMember (cmd_chat c) t),
                log_admin_action (cmd_chat c) (cmd_admin c) ''auto_ban_on_warn'' (Some t)
                  (Some (Reached ban_on_warn)),
                Request (ReplyText (WarnReply [Warned (warns r) (cmd_reason c),
                  AutoBanned ban_on_warn]))]\<rparr>
         else
           w\<lparr>history := history w @
               [Request (BanChatMember (cmd_chat c) t),
                Request (ReplyText (WarnReply [Warned (warns r) (cmd_reason c),
                  BanFailed (api e CmdBan)]))]\<rparr>)
      else if mute_on_warn \<le> warns r then
        (if api e CmdMute = Success then
           w\<lparr>group_users :=
               commit_row (cmd_chat c) t
                 (r\<lparr>is_muted := True, mute_until := Some (localnow e + mute_duration)\<rparr>)
                 (group_users w),
             history := history w @
               [Request (RestrictMute (cmd_chat c) t (localnow e + mute_duration)),
                log_admin_action (cmd_chat c) (cmd_admin c) ''auto_mute_on_warn'' (Some t)
                  (Some (Reached mute_on_warn)),
                Request (ReplyText (WarnReply [Warned (warns r) (cmd_reason c),
                  AutoMuted mute_on_warn]))]\<rparr>
         else
           w\<lparr>history := history w @
               [Request (RestrictMute (cmd_chat c) t (localnow e + mute_duration)),
                Request (ReplyText (WarnReply [Warned (warns r) (cmd_reason c),
                  MuteFailed (api e CmdMute)]))]\<rparr>)
      else
        w\<lparr>history := history w @
            [Request (ReplyText (WarnReply [Warned (warns r) (cmd_reason c)]))]\<rparr>)"

definition warn_command :: "env \<Rightarrow> world \<Rightarrow> command \<Rightarrow> world" where
  "warn_command e w c =
     (case cmd_target c of
        None \<Rightarrow> w
      | Some t \<Rightarrow>
          if t = 0 then w
          else if t = cmd_admin c then reply_text w CannotWarnSelf
          else if t = bot_id e then reply_text w CannotWarnBot
          else if is_user_admin_or_owner e t (target_member c) then reply_text w CannotWarnAdmin
          else if \<not> target_info c then reply_text w UserNotFound
          else
            (case get_or_create_group_user w (cmd_chat c) t of
               (r, w1) \<Rightarrow>
                 warn_escalate e
                   (w1\<lparr>group_users :=
                          commit_row (cmd_chat c) t (r\<lparr>warns := warns r + 1\<rparr>) (group_users w1),
                        history := history w1 @
                          [log_admin_action (cmd_chat c) (cmd_admin c) ''warn'' (Some t)
                             (map_option Text (cmd_reason c))]\<rparr>)
                   c t (r\<lparr>warns := warns r + 1\<rparr>)
                   (case groups w1 (cmd_chat c) of Some g \<Rightarrow> mute_on_warn_count g | None \<Rightarrow> 3)
                   (case groups w1 (cmd_chat c) of Some g \<Rightarrow> ban_on_warn_count g | None \<Rightarrow> 5)))"

definition unwarn_command :: "env \<Rightarrow> world \<Rightarrow> command \<Rightarrow> world" where
  "unwarn_command e w c =
     (case cmd_target c of
        None \<Rightarrow> w
      | Some t \<Rightarrow>
          if t = 0 then w
          else if \<not> target_info c then reply_text w UserNotFound
          else
            (case query_group_user (group_users w) (cmd_chat c) t of
               Some r \<Rightarrow>
                 if 0 < warns r then
                   w\<lparr>group_users :=
                       commit_row (cmd_chat c) t (r\<lparr>warns := warns r - 1\<rparr>) (group_users w),
                     history := history w @
                       [Request (ReplyText (Unwarned (warns r - 1))),
                        log_admin_action (cmd_chat c) (cmd_admin c) ''unwarn'' (Some t) None]\<rparr>
                 else reply_text w NoWarns
             | None \<Rightarrow> reply_text w NotInGroup))"

text \<open>
  \<open>ban_command\<close> bans first and opens the session afterwards. It passes the result of
  \<open>get_user_info_from_telegram\<close> to \<open>get_or_create_user\<close> unchecked; when the lookup returned
  \<open>None\<close>, \<open>user_data['id']\<close> raises \<open>TypeError\<close>, which no \<open>except\<close> clause of the handler
  catches, and the handler is left with the session closed and nothing deleted.
\<close>

definition ban_command :: "env \<Rightarrow> world \<Rightarrow> command \<Rightarrow> world" where
  "ban_command e w c =
     (case cmd_target c of
        None \<Rightarrow> w
      | Some t \<Rightarrow>
          if t = 0 then w
          else if t = cmd_admin c then reply_text w CannotBanSelf
          else if t = bot_id e then reply_text w CannotBanBot
          else if is_user_admin_or_owner e t (target_member c) then reply_text w CannotBanAdmin
          else if api e CmdBan = Success then
            (if target_info c then
               w\<lparr>group_users := delete_row (cmd_chat c) t (group_users w),
                 history := history w @
                   [Request (BanChatMember (cmd_chat c) t),
                    Request (ReplyText (BanReply (cmd_reason c))),
                    log_admin_action (cmd_chat c) (cmd_admin c) ''ban'' (Some t)
                      (map_option Text (cmd_reason c))]\<rparr>
             else w\<lparr>history := history w @ [Request (BanChatMember (cmd_chat c) t)]\<rparr>)
          else
            w\<lparr>history := history w @
                [Request (BanChatMember (cmd_chat c) t),
                 Request (ReplyText (BanError (api e CmdBan)))]\<rparr>)"

section \<open>The background job: \<open>check_expired_mutes\<close>\<close>

text \<open>
  What the job meets: the clock, the bot's id, and for the row of each chat and user what
  \<open>get_chat_member\<close> answers about the bot and how the request to lift the restriction ends.
\<close>

record job_env =
  job_now :: timestamp
  job_bot_id :: int
  job_bot_member :: "int \<times> int \<Rightarrow> member_status option"
  job_unmute :: "int \<times> int \<Rightarrow> tg_result"

text \<open>The query filter \<open>is_muted == True\<close> and \<open>mute_until < now\<close>; a NULL never compares.\<close>

definition expired_mute :: "timestamp \<Rightarrow> group_user \<Rightarrow> bool" where
  "expired_mute now r =
     (is_muted r \<and> (case mute_until r of None \<Rightarrow> False | Some t \<Rightarrow> t < now))"

text \<open>One turn of the \<open>for\<close> loop; rows the query does not select are left alone.\<close>

definition sweep_row :: "job_env \<Rightarrow> group_user \<Rightarrow> group_user \<times> event list" where
  "sweep_row j r =
     (if expired_mute (job_now j) r then
        (if is_admin_status (job_bot_member j (group_id r, user_id r)) then
           (case job_unmute j (group_id r, user_id r) of
              Success \<Rightarrow>
                (r\<lparr>is_muted := False, mute_until := None\<rparr>,
                 [Request (RestrictLift (group_id r) (user_id r)),
                  log_admin_action (group_id r) (job_bot_id j) ''auto_unmute_expired''
                    (Some (user_id r)) (Some (Text ''Mute expired''))])
            | BadRequest \<Rightarrow>
                (r\<lparr>is_muted := False, mute_until := None\<rparr>,
                 [Request (RestrictLift (group_id r) (user_id r))])
            | OtherTelegramError \<Rightarrow> (r, [Request (RestrictLift (group_id r) (user_id r))]))
         else (r, []))
      else (r, []))"

fun sweep :: "job_env \<Rightarrow> group_user list \<Rightarrow> group_user list \<times> event list" where
  "sweep j [] = ([], [])"
| "sweep j (r # rows) =
     (case sweep_row j r of
        (r', es) \<Rightarrow> (case sweep j rows of (rows', es') \<Rightarrow> (r' # rows', es @ es')))"

definition check_expired_mutes :: "job_env \<Rightarrow> world \<Rightarrow> world" where
  "check_expired_mutes j w =
     (case sweep j (group_users w) of
        (rows, es) \<Rightarrow> w\<lparr>group_users := rows, history := history w @ es\<rparr>)"

section \<open>Reading a history\<close>

fun is_ban :: "event \<Rightarrow> bool" where
  "is_ban (Request (BanChatMember c u)) = True"
| "is_ban x = False"

fun is_mute :: "event \<Rightarrow> bool" where
  "is_mute (Request (RestrictMute c u t)) = True"
| "is_mute x = False"

fun is_warning :: "event \<Rightarrow> bool" where
  "is_warning (Request (SendMessage c (FloodWarning n))) = True"
| "is_warning (Request (SendMessage c (WordWarning w n))) = True"
| "is_warning (Request (ReplyText (WarnReply ps))) = True"
| "is_warning x = False"

fun is_flood_warn_log :: "event \<Rightarrow> bool" where
  "is_flood_warn_log (Log l) = (action l = ''auto_warn_flood'')"
| "is_flood_warn_log x = False"

fun is_warn_log :: "event \<Rightarrow> bool" where
  "is_warn_log (Log l) =
     (action l = ''auto_warn_flood'' \<or> action l = ''auto_warn_forbidden_word'')"
| "is_warn_log x = False"

definition bans :: "event list \<Rightarrow> nat" where
  "bans es = length (filter is_ban es)"

definition mutes :: "event list \<Rightarrow> nat" where
  "mutes es = length (filter is_mute es)"

definition warnings :: "event list \<Rightarrow> nat" where
  "warnings es = length (filter is_warning es)"

text \<open>The warn count \<open>get_or_create_group_user\<close> would find for a chat and user.\<close>

definition warn_count :: "world \<Rightarrow> int \<Rightarrow> int \<Rightarrow> int" where
  "warn_count w c u = warns (fst (get_or_create_group_user w c u))"

text \<open>The settings \<open>get_or_create_group\<close> would find for a chat.\<close>

definition settings :: "world \<Rightarrow> int \<Rightarrow> group" where
  "settings w c = fst (get_or_create_group w c)"

text \<open>The part of the history of \<open>w'\<close> written after \<open>w\<close>.\<close>

definition news :: "world \<Rightarrow> world \<Rightarrow> event list" where
  "news w w' = drop (length (history w)) (history w')"

text \<open>What lets \<open>warn_command\<close> reach the warn: the checks it makes on the target.\<close>

definition warnable :: "env \<Rightarrow> command \<Rightarrow> int \<Rightarrow> bool" where
  "warnable e c t =
     (cmd_target c = Some t \<and> t \<noteq> 0 \<and> t \<noteq> cmd_admin c \<and> t \<noteq> bot_id e
      \<and> \<not> is_user_admin_or_owner e t (target_member c) \<and> target_info c)"

section \<open>Runs of violations\<close>

text \<open>The key of a row, and what the pipeline does to a warn count in one message.\<close>

definition row_key :: "group_user \<Rightarrow> int \<times> int" where
  "row_key r = (group_id r, user_id r)"

text \<open>
  \<open>counts_once g n k f\<close>: \<open>f\<close> is what a stretch of the pipeline made of a row with key \<open>k\<close>
  and \<open>n\<close> warns. If it goes on, no warning was sent and the count is still \<open>n\<close>; if a
  warning was sent and \<open>n + 1\<close> is below both thresholds of \<open>g\<close>, the row is kept with
  count \<open>n + 1\<close>.
\<close>

definition counts_once :: "group \<Rightarrow> int \<Rightarrow> int \<times> int \<Rightarrow> flow \<Rightarrow> bool" where
  "counts_once g n k f =
     ((\<forall>r' es. f = Proceed r' es \<longrightarrow> warnings es = 0 \<and> warns r' = n \<and> row_key r' = k)
      \<and> (0 < warnings (events_of f) \<and> n + 1 < ban_on_warn_count g
           \<and> n + 1 < mute_on_warn_count g \<longrightarrow>
            (\<exists>r'. final_row f = Some r' \<and> warns r' = n + 1 \<and> row_key r' = k)))"

text \<open>
  A run of inputs about one actor: messages and \<open>/warn\<close> commands, each with the
  environment it meets.
\<close>

datatype input = Message env message | WarnCommand env command

fun deliver :: "world \<Rightarrow> input \<Rightarrow> world" where
  "deliver w (Message e m) = handle_all_messages e w m"
| "deliver w (WarnCommand e c) = warn_command e w c"

definition below_thresholds :: "world \<Rightarrow> int \<Rightarrow> int \<Rightarrow> bool" where
  "below_thresholds w c u =
     (warn_count w c u + 1 < mute_on_warn_count (settings w c)
      \<and> warn_count w c u + 1 < ban_on_warn_count (settings w c))"

text \<open>
  An input that is a counted violation of user \<open>u\<close> in chat \<open>c\<close> which reaches no threshold:
  a message of that user for which the pipeline sends a warning (it does so exactly when
  it has deleted the message for flood or for a forbidden word), or a \<open>/warn\<close> that passes
  the checks on that user, met with a warn count that stays below both thresholds.
\<close>

fun counted :: "int \<Rightarrow> int \<Rightarrow> world \<Rightarrow> input \<Rightarrow> bool" where
  "counted c u w (Message e m) =
     (chat_id m = c \<and> from_user m = u
      \<and> 0 < warnings (news w (handle_all_messages e w m)) \<and> below_thresholds w c u)"
| "counted c u w (WarnCommand e cm) =
     (cmd_chat cm = c \<and> warnable e cm u \<and> below_thresholds w c u)"

fun all_counted :: "int \<Rightarrow> int \<Rightarrow> world \<Rightarrow> input list \<Rightarrow> bool" where
  "all_counted c u w [] = True"
| "all_counted c u w (i # is) = (counted c u w i \<and> all_counted c u (deliver w i) is)"

section \<open>The specification's wording, for comparison\<close>

text \<open>
  Specification, section 4.1, Flood: a fixed window. If \<open>now - floodWindowStart <
  floodWindowSeconds\<close>, increment \<open>floodCount\<close>; else reset \<open>floodWindowStart = now\<close>,
  \<open>floodCount = 1\<close>. The window start is the column \<open>last_message_time\<close>.
\<close>

definition spec_fixed_window :: "group \<Rightarrow> timestamp \<Rightarrow> group_user \<Rightarrow> group_user" where
  "spec_fixed_window g now r =
     (if within_interval g now r then
        r\<lparr>message_count_in_interval := message_count_in_interval r + 1\<rparr>
      else r\<lparr>last_message_time := Some now, message_count_in_interval := 1\<rparr>)"

text \<open>
  Specification, section 4.1, ForbiddenWord: case-insensitive substring match of the
  message text against the forbidden words; the first matching word is returned.
\<close>

definition spec_forbidden_word :: "string list \<Rightarrow> string \<Rightarrow> string option" where
  "spec_forbidden_word ws t = find (\<lambda>word. sublist (lower word) (lower t)) ws"

section \<open>Sample inputs\<close>

text \<open>
  An environment where nothing goes wrong: the sender is a plain member, the bot is
  administrator and every request succeeds.
\<close>

definition calm :: env where
  "calm = \<lparr>OWNER_USER_ID = 6508600903, bot_id = 1, utcnow = 0, localnow = 0,
     sender_member = Some MEMBER, bot_member = (\<lambda>k. Some ADMINISTRATOR),
     api = (\<lambda>s. Success)\<rparr>"

definition text_message :: "string \<Rightarrow> message" where
  "text_message t = \<lparr>chat_id = 100, from_user = 7, message_id = 1, msg_text = Some t,
     new_chat_members = False, left_chat_member = False, photo = False, video = False,
     url_entity = False, forward_from = False, forward_from_chat = False, sticker = False,
     animation = False, voice = False, document = False, video_note = False, poll = False,
     game = False\<rparr>"

definition photo_message :: message where
  "photo_message = (text_message [])\<lparr>msg_text := None, photo := True\<rparr>"

definition empty_world :: world where
  "empty_world = \<lparr>groups = (\<lambda>c. None), group_users = [], forbidden_words = [], history = []\<rparr>"

definition warn_7 :: command where
  "warn_7 = \<lparr>cmd_chat = 100, cmd_admin = 9, cmd_target = Some 7, cmd_reason = None,
     target_member = Some MEMBER, target_info = True\<rparr>"

definition quiet_job :: job_env where
  "quiet_job = \<lparr>job_now = 100, job_bot_id = 1,
     job_bot_member = (\<lambda>k. Some ADMINISTRATOR), job_unmute = (\<lambda>k. Success)\<rparr>"

definition row_2 :: group_user where
  "row_2 = (new_group_user 100 7)\<lparr>warns := 2\<rparr>"

definition row_muted :: "timestamp option \<Rightarrow> group_user" where
  "row_muted t = (new_group_user 100 7)\<lparr>is_muted := True, mute_until := t\<rparr>"

section \<open>Properties\<close>

subsection \<open>Characters\<close>

lemma lower_char_plus_32:
  "lower_char c =
     (if 65 \<le> (of_char c :: nat) \<and> (of_char c :: nat) \<le> 90
      then char_of (of_char c + 32 :: nat) else c)"
  by (cases c) (auto simp: lower_char_def char_of_def bit_simps)

subsection \<open>Exempt senders\<close>

text \<open>
  C10, as the claim states it, fails when \<open>get_chat_member\<close> raises \<open>TelegramError\<close> for
  the sender: \<open>is_user_admin_or_owner\<close> then answers \<open>False\<close> whoever the sender is, a group
  administrator included, and the message goes through the pipeline: it is deleted for
  its forbidden word, the row is created, the flood counter set and a warn added.
\<close>

theorem exempt_lookup_counterexample:
  "handle_all_messages (calm\<lparr>sender_member := None\<rparr>)
     (empty_world\<lparr>forbidden_words := [(100, ''spam'')]\<rparr>) (text_message ''this is SPAM'')
   = \<lparr>groups = (\<lambda>c. None)(100 \<mapsto> new_group),
      group_users =
        [\<lparr>group_id = 100, user_id = 7, warns = 1, is_muted = False, mute_until = None,
          last_message_time = Some 0, message_count_in_interval = 1\<rparr>],
      forbidden_words = [(100, ''spam'')],
      history =
        [Request (DeleteMessage 100 1),
         Request (SendMessage 100 (WordWarning ''spam'' 1)),
         Log \<lparr>log_group_id = 100, admin_id = 1, action = ''auto_warn_forbidden_word'',
              target_user_id = Some 7, log_reason = Some (UsedForbiddenWord ''spam'')\<rparr>]\<rparr>"
  by (simp add: handle_all_messages_def exempt_def is_user_admin_or_owner_def
      is_admin_status_def calm_def empty_world_def text_message_def
      get_or_create_group_def get_or_create_group_user_def query_group_user_def
      get_forbidden_words_def new_group_user_def new_group_def row_of_def
      moderate_def rules_def system_cleanup_def muted_check_def anti_flood_def
      flood_count_def within_interval_def has_text_def word_filter_def auto_warn_def
      escalate_def lower_def lower_char_def sublist_Cons_right is_bot_admin_def
      delete_message_def log_admin_action_def store_row_def)

text \<open>
  C10, amended. A message whose sender is the bot itself, the configured bot owner, or a
  member that \<open>get_chat_member\<close> reports as administrator or owner of the group leaves
  \<open>handle_all_messages\<close> before the session is opened: no row is created or changed, no
  flood counter or warn count moves, and no request (delete, restrict, ban, message) is
  issued, whatever the content and the settings of the group.
\<close>

theorem exempt_sender_untouched:
  assumes "from_user m = bot_id e \<or> from_user m = OWNER_USER_ID e
     \<or> sender_member e = Some ADMINISTRATOR \<or> sender_member e = Some OWNER"
  shows "handle_all_messages e w m = w"
  using assms
  by (auto simp: handle_all_messages_def exempt_def is_user_admin_or_owner_def
      is_admin_status_def)

theorem exempt_sender_untouched_witness:
  "sender_member (calm\<lparr>sender_member := Some ADMINISTRATOR\<rparr>) = Some ADMINISTRATOR \<and>
   handle_all_messages (calm\<lparr>sender_member := Some ADMINISTRATOR\<rparr>)
     (empty_world\<lparr>forbidden_words := [(100, ''spam'')]\<rparr>) (text_message ''this is SPAM'')
   = empty_world\<lparr>forbidden_words := [(100, ''spam'')]\<rparr>"
  using exempt_sender_untouched [of "text_message ''this is SPAM''"
    "calm\<lparr>sender_member := Some ADMINISTRATOR\<rparr>"
    "empty_world\<lparr>forbidden_words := [(100, ''spam'')]\<rparr>"]
  by (simp add: calm_def)

subsection \<open>Events and counts\<close>

lemma events_after [simp]: "events_of (after es f) = es @ events_of f"
  by (cases f) simp_all

lemma final_row_after [simp]: "final_row (after es f) = final_row f"
  by (cases f) simp_all

lemma bans_append [simp]: "bans (xs @ ys) = bans xs + bans ys"
  by (simp add: bans_def)

lemma mutes_append [simp]: "mutes (xs @ ys) = mutes xs + mutes ys"
  by (simp add: mutes_def)

lemma warnings_append [simp]: "warnings (xs @ ys) = warnings xs + warnings ys"
  by (simp add: warnings_def)

lemma escalate_counts:
  "bans (events_of (escalate e g m v r)) = (if ban_on_warn_count g \<le> warns r then 1 else 0)"
  "mutes (events_of (escalate e g m v r)) =
     (if ban_on_warn_count g \<le> warns r then 0
      else if mute_on_warn_count g \<le> warns r then 1 else 0)"
  "warnings (events_of (escalate e g m v r)) = 0"
  by (auto simp: escalate_def bans_def mutes_def warnings_def log_admin_action_def)

lemma warn_prefix_counts:
  "bans [delete_message m, Request (SendMessage c (warn_notice v n)),
         log_admin_action c b (warn_action v) u x] = 0"
  "mutes [delete_message m, Request (SendMessage c (warn_notice v n)),
          log_admin_action c b (warn_action v) u x] = 0"
  "warnings [delete_message m, Request (SendMessage c (warn_notice v n)),
             log_admin_action c b (warn_action v) u x] = 1"
  by (cases v; simp add: bans_def mutes_def warnings_def log_admin_action_def
      delete_message_def)+

lemma auto_warn_counts:
  assumes "api e (WarnDelete (rule_of v)) = Success"
    and "api e (WarnMessage (rule_of v)) = Success"
  shows "bans (events_of (auto_warn e g m v r)) =
           (if ban_on_warn_count g \<le> warns r + 1 then 1 else 0)"
    and "mutes (events_of (auto_warn e g m v r)) =
           (if ban_on_warn_count g \<le> warns r + 1 then 0
            else if mute_on_warn_count g \<le> warns r + 1 then 1 else 0)"
    and "warnings (events_of (auto_warn e g m v r)) = 1"
proof -
  have a: "auto_warn e g m v r =
      after
        [delete_message m,
         Request (SendMessage (chat_id m) (warn_notice v (warns r + 1))),
         log_admin_action (chat_id m) (bot_id e) (warn_action v) (Some (from_user m))
           (Some (warn_reason v))]
        (escalate e g m v (r\<lparr>warns := warns r + 1\<rparr>))"
    using assms by (simp add: auto_warn_def)
  have ev: "events_of (auto_warn e g m v r) =
      [delete_message m,
       Request (SendMessage (chat_id m) (warn_notice v (warns r + 1))),
       log_admin_action (chat_id m) (bot_id e) (warn_action v) (Some (from_user m))
         (Some (warn_reason v))]
      @ events_of (escalate e g m v (r\<lparr>warns := warns r + 1\<rparr>))"
    by (simp add: a)
  show "bans (events_of (auto_warn e g m v r)) =
           (if ban_on_warn_count g \<le> warns r + 1 then 1 else 0)"
    by (simp only: ev bans_append warn_prefix_counts escalate_counts; simp)
  show "mutes (events_of (auto_warn e g m v r)) =
           (if ban_on_warn_count g \<le> warns r + 1 then 0
            else if mute_on_warn_count g \<le> warns r + 1 then 1 else 0)"
    by (simp only: ev mutes_append warn_prefix_counts escalate_counts; simp)
  show "warnings (events_of (auto_warn e g m v r)) = 1"
    by (simp only: ev warnings_append warn_prefix_counts escalate_counts; simp)
qed

lemma history_warn_escalate:
  "history (warn_escalate e w c t r mw bw)
     = history w @ news w (warn_escalate e w c t r mw bw)"
  by (simp add: warn_escalate_def news_def)

lemma warn_escalate_news:
  "bans (news w (warn_escalate e w c t r mw bw)) = (if bw \<le> warns r then 1 else 0)"
  "mutes (news w (warn_escalate e w c t r mw bw)) =
     (if bw \<le> warns r then 0 else if mw \<le> warns r then 1 else 0)"
  "warnings (news w (warn_escalate e w c t r mw bw)) = 1"
  by (simp_all add: warn_escalate_def news_def bans_def mutes_def warnings_def
      log_admin_action_def)

lemma settings_thresholds:
  "(case groups w c of Some g \<Rightarrow> mute_on_warn_count g | None \<Rightarrow> 3)
     = mute_on_warn_count (settings w c)"
  "(case groups w c of Some g \<Rightarrow> ban_on_warn_count g | None \<Rightarrow> 5)
     = ban_on_warn_count (settings w c)"
  by (simp_all add: settings_def get_or_create_group_def new_group_def split: option.splits)

lemma get_or_create_group_user_keeps:
  "groups (snd (get_or_create_group_user w c u)) = groups w"
  "history (snd (get_or_create_group_user w c u)) = history w"
  "forbidden_words (snd (get_or_create_group_user w c u)) = forbidden_words w"
  by (simp_all add: get_or_create_group_user_def split: option.splits)

lemma warn_command_eq:
  assumes "warnable e c t"
  shows "warn_command e w c =
    warn_escalate e
      ((snd (get_or_create_group_user w (cmd_chat c) t))
         \<lparr>group_users :=
            commit_row (cmd_chat c) t
              ((fst (get_or_create_group_user w (cmd_chat c) t))
                 \<lparr>warns := warn_count w (cmd_chat c) t + 1\<rparr>)
              (group_users (snd (get_or_create_group_user w (cmd_chat c) t))),
          history := history w @
            [log_admin_action (cmd_chat c) (cmd_admin c) ''warn'' (Some t)
               (map_option Text (cmd_reason c))]\<rparr>)
      c t
      ((fst (get_or_create_group_user w (cmd_chat c) t))
         \<lparr>warns := warn_count w (cmd_chat c) t + 1\<rparr>)
      (mute_on_warn_count (settings w (cmd_chat c)))
      (ban_on_warn_count (settings w (cmd_chat c)))"
proof -
  obtain r w1 where g: "get_or_create_group_user w (cmd_chat c) t = (r, w1)"
    by (cases "get_or_create_group_user w (cmd_chat c) t")
  have k: "groups w1 = groups w" "history w1 = history w"
    using get_or_create_group_user_keeps [of w "cmd_chat c" t] by (simp_all add: g)
  have s: "settings w1 (cmd_chat c) = settings w (cmd_chat c)"
    by (simp add: settings_def get_or_create_group_def k split: option.splits)
  show ?thesis
    using assms
    by (simp add: warnable_def warn_command_def g k s settings_thresholds warn_count_def)
qed

lemma warn_command_news:
  assumes "warnable e c t"
  shows "bans (news w (warn_command e w c)) =
           (if ban_on_warn_count (settings w (cmd_chat c)) \<le> warn_count w (cmd_chat c) t + 1
            then 1 else 0)"
    and "mutes (news w (warn_command e w c)) =
           (if ban_on_warn_count (settings w (cmd_chat c)) \<le> warn_count w (cmd_chat c) t + 1
            then 0
            else if mute_on_warn_count (settings w (cmd_chat c))
                      \<le> warn_count w (cmd_chat c) t + 1
            then 1 else 0)"
    and "warnings (news w (warn_command e w c)) = 1"
proof -
  define w2 where "w2 =
      (snd (get_or_create_group_user w (cmd_chat c) t))
         \<lparr>group_users :=
            commit_row (cmd_chat c) t
              ((fst (get_or_create_group_user w (cmd_chat c) t))
                 \<lparr>warns := warn_count w (cmd_chat c) t + 1\<rparr>)
              (group_users (snd (get_or_create_group_user w (cmd_chat c) t))),
          history := history w @
            [log_admin_action (cmd_chat c) (cmd_admin c) ''warn'' (Some t)
               (map_option Text (cmd_reason c))]\<rparr>"
  define r2 where "r2 =
      (fst (get_or_create_group_user w (cmd_chat c) t))
         \<lparr>warns := warn_count w (cmd_chat c) t + 1\<rparr>"
  define es where "es = news w2 (warn_escalate e w2 c t r2
      (mute_on_warn_count (settings w (cmd_chat c)))
      (ban_on_warn_count (settings w (cmd_chat c))))"
  have eq: "warn_command e w c = warn_escalate e w2 c t r2
      (mute_on_warn_count (settings w (cmd_chat c)))
      (ban_on_warn_count (settings w (cmd_chat c)))"
    unfolding w2_def r2_def by (rule warn_command_eq [OF assms])
  have h2: "history w2 =
      history w @ [log_admin_action (cmd_chat c) (cmd_admin c) ''warn'' (Some t)
               (map_option Text (cmd_reason c))]"
    by (simp add: w2_def)
  have "history (warn_command e w c) = history w2 @ es"
    unfolding eq es_def by (rule history_warn_escalate)
  then have n: "news w (warn_command e w c) =
      [log_admin_action (cmd_chat c) (cmd_admin c) ''warn'' (Some t)
               (map_option Text (cmd_reason c))] @ es"
    by (simp add: news_def h2)
  have r2: "warns r2 = warn_count w (cmd_chat c) t + 1"
    by (simp add: r2_def)
  have l: "bans [log_admin_action (cmd_chat c) (cmd_admin c) ''warn'' (Some t)
               (map_option Text (cmd_reason c))] = 0"
    "mutes [log_admin_action (cmd_chat c) (cmd_admin c) ''warn'' (Some t)
               (map_option Text (cmd_reason c))] = 0"
    "warnings [log_admin_action (cmd_chat c) (cmd_admin c) ''warn'' (Some t)
               (map_option Text (cmd_reason c))] = 0"
    by (simp_all add: bans_def mutes_def warnings_def log_admin_action_def)
  show "bans (news w (warn_command e w c)) =
           (if ban_on_warn_count (settings w (cmd_chat c)) \<le> warn_count w (cmd_chat c) t + 1
            then 1 else 0)"
    by (simp only: n bans_append l es_def warn_escalate_news r2; simp)
  show "mutes (news w (warn_command e w c)) =
           (if ban_on_warn_count (settings w (cmd_chat c)) \<le> warn_count w (cmd_chat c) t + 1
            then 0
            else if mute_on_warn_count (settings w (cmd_chat c))
                      \<le> warn_count w (cmd_chat c) t + 1
            then 1 else 0)"
    by (simp only: n mutes_append l es_def warn_escalate_news r2; simp)
  show "warnings (news w (warn_command e w c)) = 1"
    by (simp only: n warnings_append l es_def warn_escalate_news r2; simp)
qed

lemma media_counts:
  "bans (events_of (media_locks e g m r)) = 0"
  "mutes (events_of (media_locks e g m r)) = 0"
  "warnings (events_of (media_locks e g m r)) = 0"
  "final_row (media_locks e g m r) = Some r"
  by (auto simp: media_locks_def bans_def mutes_def warnings_def log_admin_action_def
      delete_message_def split: option.splits)

subsection \<open>Ban before mute\<close>

text \<open>
  C1, as the claim states it, fails on a locked-media violation: a photo sent to a group
  that locks photos is deleted and logged, and none of warn, mute or ban follows.
\<close>

theorem locked_media_counterexample:
  "locked_media (new_group\<lparr>lock_photos := True\<rparr>) photo_message = Some ''Photo locked''
   \<and> moderate calm (new_group\<lparr>lock_photos := True\<rparr>) [] photo_message (new_group_user 100 7)
     = Return (Some (new_group_user 100 7))
         [Request (DeleteMessage 100 1),
          Log \<lparr>log_group_id = 100, admin_id = 1, action = ''delete_locked_media'',
               target_user_id = Some 7, log_reason = Some (Text ''Photo locked'')\<rparr>]"
  by (simp add: moderate_def rules_def system_cleanup_def muted_check_def anti_flood_def
      word_filter_def media_locks_def locked_media_def calm_def new_group_def
      photo_message_def text_message_def new_group_user_def has_text_def
      is_bot_admin_def is_admin_status_def delete_message_def log_admin_action_def)

text \<open>
  C1, amended. A flood or forbidden-word violation whose message was deleted and whose
  warning was delivered, and a \<open>/warn\<close> that passes the checks on its target, each send
  exactly one warning and then request exactly one ban and no mute when the new warn count
  has reached \<open>ban_on_warn_count\<close> (whatever \<open>mute_on_warn_count\<close> is, also when the two are
  equal or the ban threshold is the smaller), exactly one mute and no ban when it has
  reached only \<open>mute_on_warn_count\<close>, and neither otherwise. A locked-media violation
  sends no warning and requests neither ban nor mute.
\<close>

theorem one_action_per_warn:
  "(api e (WarnDelete (rule_of v)) = Success \<and> api e (WarnMessage (rule_of v)) = Success \<longrightarrow>
      warnings (events_of (auto_warn e g m v r)) = 1
      \<and> bans (events_of (auto_warn e g m v r)) =
          (if ban_on_warn_count g \<le> warns r + 1 then 1 else 0)
      \<and> mutes (events_of (auto_warn e g m v r)) =
          (if ban_on_warn_count g \<le> warns r + 1 then 0
           else if mute_on_warn_count g \<le> warns r + 1 then 1 else 0))
   \<and> (warnable e c t \<longrightarrow>
      warnings (news w (warn_command e w c)) = 1
      \<and> bans (news w (warn_command e w c)) =
          (if ban_on_warn_count (settings w (cmd_chat c)) \<le> warn_count w (cmd_chat c) t + 1
           then 1 else 0)
      \<and> mutes (news w (warn_command e w c)) =
          (if ban_on_warn_count (settings w (cmd_chat c)) \<le> warn_count w (cmd_chat c) t + 1
           then 0
           else if mute_on_warn_count (settings w (cmd_chat c))
                     \<le> warn_count w (cmd_chat c) t + 1
           then 1 else 0))
   \<and> warnings (events_of (media_locks e g m r)) = 0
   \<and> bans (events_of (media_locks e g m r)) = 0
   \<and> mutes (events_of (media_locks e g m r)) = 0"
  using auto_warn_counts [of e v g m r] warn_command_news [of e c t w]
    media_counts [of e g m r]
  by blast

theorem one_action_per_warn_witness:
  "api calm (WarnDelete (rule_of Flooding)) = Success
   \<and> api calm (WarnMessage (rule_of Flooding)) = Success
   \<and> warnable calm warn_7 7
   \<and> ban_on_warn_count (new_group\<lparr>mute_on_warn_count := 3, ban_on_warn_count := 3\<rparr>)
        \<le> warns row_2 + 1
   \<and> mute_on_warn_count (new_group\<lparr>mute_on_warn_count := 3, ban_on_warn_count := 3\<rparr>)
        \<le> warns row_2 + 1
   \<and> warnings (events_of (auto_warn calm
        (new_group\<lparr>mute_on_warn_count := 3, ban_on_warn_count := 3\<rparr>)
        (text_message ''hi'') Flooding row_2)) = 1
   \<and> bans (events_of (auto_warn calm
        (new_group\<lparr>mute_on_warn_count := 3, ban_on_warn_count := 3\<rparr>)
        (text_message ''hi'') Flooding row_2)) = 1
   \<and> mutes (events_of (auto_warn calm
        (new_group\<lparr>mute_on_warn_count := 3, ban_on_warn_count := 3\<rparr>)
        (text_message ''hi'') Flooding row_2)) = 0
   \<and> warnings (news empty_world (warn_command calm empty_world warn_7)) = 1
   \<and> bans (news empty_world (warn_command calm empty_world warn_7)) = 0
   \<and> mutes (news empty_world (warn_command calm empty_world warn_7)) = 0"
  using one_action_per_warn [of calm Flooding
      "new_group\<lparr>mute_on_warn_count := 3, ban_on_warn_count := 3\<rparr>"
      "text_message ''hi''" row_2 warn_7 7 empty_world]
  by (simp add: calm_def warnable_def warn_7_def row_2_def new_group_user_def new_group_def
      is_user_admin_or_owner_def is_admin_status_def settings_def warn_count_def
      get_or_create_group_def get_or_create_group_user_def query_group_user_def
      empty_world_def)

subsection \<open>The flood counter\<close>

text \<open>
  C3, as the claim states it, fails: the stored timestamp is the time of the previous
  message, not the start of a window. With a 10 second interval and messages at 0, 6 and
  12 seconds the code counts 3, a fixed window as the specification words it counts 1.
\<close>

theorem fixed_window_counterexample:
  "message_count_in_interval
     (flood_count new_group 12000000
        (flood_count new_group 6000000 (flood_count new_group 0 (new_group_user 100 7)))) = 3
   \<and> message_count_in_interval
     (spec_fixed_window new_group 12000000
        (spec_fixed_window new_group 6000000
           (spec_fixed_window new_group 0 (new_group_user 100 7)))) = 1"
  by (simp add: flood_count_def spec_fixed_window_def within_interval_def new_group_def
      new_group_user_def)

lemma escalate_returns:
  "escalate e g m v r
     = Return (final_row (escalate e g m v r)) (events_of (escalate e g m v r))"
  by (simp add: escalate_def)

lemma auto_warn_returns:
  "auto_warn e g m v r
     = Return (final_row (auto_warn e g m v r)) (events_of (auto_warn e g m v r))"
proof (cases "escalate e g m v (r\<lparr>warns := warns r + 1\<rparr>)")
  case (Proceed r' es)
  then show ?thesis using escalate_returns [of e g m v "r\<lparr>warns := warns r + 1\<rparr>"] by simp
next
  case (Return ro es)
  then show ?thesis by (simp add: auto_warn_def)
qed

text \<open>
  C3, amended. The flood counter counts messages that follow one another closely: when
  anti-flood is enabled and the message has text, the count is incremented if the
  previous text message of the actor is less than \<open>anti_flood_time\<close> seconds old and reset
  to 1 otherwise, and the stored timestamp is set to now in both cases. The message is
  treated as flood (the handler ends in section 6.3) exactly when the new count exceeds
  \<open>anti_flood_limit\<close>; if the bot is administrator the first thing it then does is to
  request the deletion of the message.
\<close>

theorem flood_counter:
  assumes "anti_flood_enabled g" and "has_text m"
  shows "flood_count g (utcnow e) r =
           r\<lparr>message_count_in_interval :=
                (if \<exists>t. last_message_time r = Some t
                       \<and> utcnow e - t < anti_flood_time g * 1000000
                 then message_count_in_interval r + 1 else 1),
             last_message_time := Some (utcnow e)\<rparr>
         \<and> ((anti_flood e g m r =
               Return (final_row (anti_flood e g m r)) (events_of (anti_flood e g m r)))
             \<longleftrightarrow> anti_flood_limit g
                   < message_count_in_interval (flood_count g (utcnow e) r))
         \<and> (anti_flood_limit g < message_count_in_interval (flood_count g (utcnow e) r)
               \<and> is_bot_admin e AtFlood \<longrightarrow>
             hd (events_of (anti_flood e g m r)) = delete_message m)
         \<and> (\<not> anti_flood_limit g < message_count_in_interval (flood_count g (utcnow e) r)
               \<longrightarrow> anti_flood e g m r = Proceed (flood_count g (utcnow e) r) [])"
proof (intro conjI)
  show "flood_count g (utcnow e) r =
           r\<lparr>message_count_in_interval :=
                (if \<exists>t. last_message_time r = Some t
                       \<and> utcnow e - t < anti_flood_time g * 1000000
                 then message_count_in_interval r + 1 else 1),
             last_message_time := Some (utcnow e)\<rparr>"
    by (cases "last_message_time r") (simp_all add: flood_count_def within_interval_def)
next
  show "(anti_flood e g m r =
               Return (final_row (anti_flood e g m r)) (events_of (anti_flood e g m r)))
             \<longleftrightarrow> anti_flood_limit g
                   < message_count_in_interval (flood_count g (utcnow e) r)"
    using assms auto_warn_returns [of e g m Flooding "flood_count g (utcnow e) r"]
    by (simp add: anti_flood_def)
next
  show "anti_flood_limit g < message_count_in_interval (flood_count g (utcnow e) r)
               \<and> is_bot_admin e AtFlood \<longrightarrow>
             hd (events_of (anti_flood e g m r)) = delete_message m"
    using assms by (simp add: anti_flood_def auto_warn_def)
next
  show "\<not> anti_flood_limit g < message_count_in_interval (flood_count g (utcnow e) r)
               \<longrightarrow> anti_flood e g m r = Proceed (flood_count g (utcnow e) r) []"
    using assms by (simp add: anti_flood_def)
qed

theorem flood_counter_witness:
  "anti_flood_enabled new_group \<and> has_text (text_message ''hi'')
   \<and> is_bot_admin (calm\<lparr>utcnow := 9000000\<rparr>) AtFlood
   \<and> anti_flood_limit new_group = 5
   \<and> message_count_in_interval
        (flood_count new_group 9000000
           ((new_group_user 100 7)\<lparr>last_message_time := Some 8000000,
              message_count_in_interval := 5\<rparr>)) = 6
   \<and> anti_flood (calm\<lparr>utcnow := 9000000\<rparr>) new_group (text_message ''hi'')
        ((new_group_user 100 7)\<lparr>last_message_time := Some 8000000,
           message_count_in_interval := 5\<rparr>)
      = Return
          (final_row (anti_flood (calm\<lparr>utcnow := 9000000\<rparr>) new_group (text_message ''hi'')
             ((new_group_user 100 7)\<lparr>last_message_time := Some 8000000,
                message_count_in_interval := 5\<rparr>)))
          (events_of (anti_flood (calm\<lparr>utcnow := 9000000\<rparr>) new_group (text_message ''hi'')
             ((new_group_user 100 7)\<lparr>last_message_time := Some 8000000,
                message_count_in_interval := 5\<rparr>)))
   \<and> hd (events_of (anti_flood (calm\<lparr>utcnow := 9000000\<rparr>) new_group (text_message ''hi'')
        ((new_group_user 100 7)\<lparr>last_message_time := Some 8000000,
           message_count_in_interval := 5\<rparr>)))
      = delete_message (text_message ''hi'')
   \<and> anti_flood (calm\<lparr>utcnow := 9000000\<rparr>) new_group (text_message ''hi'')
        ((new_group_user 100 7)\<lparr>last_message_time := Some 8000000,
           message_count_in_interval := 2\<rparr>)
      = Proceed ((new_group_user 100 7)\<lparr>last_message_time := Some 9000000,
           message_count_in_interval := 3\<rparr>) []"
  using flood_counter [of new_group "text_message ''hi''" "calm\<lparr>utcnow := 9000000\<rparr>"
      "(new_group_user 100 7)\<lparr>last_message_time := Some 8000000,
         message_count_in_interval := 5\<rparr>"]
    flood_counter [of new_group "text_message ''hi''" "calm\<lparr>utcnow := 9000000\<rparr>"
      "(new_group_user 100 7)\<lparr>last_message_time := Some 8000000,
         message_count_in_interval := 2\<rparr>"]
  by (simp add: new_group_def has_text_def text_message_def calm_def is_bot_admin_def
      is_admin_status_def flood_count_def within_interval_def new_group_user_def)

subsection \<open>A mute that fails\<close>

text \<open>
  C6, as the claim states it, fails: when the restrict request of the message pipeline
  raises, nothing is written to the audit table for it and nothing is sent to the group;
  the history ends with the request itself.
\<close>

theorem failed_mute_counterexample:
  "moderate (calm\<lparr>api := (\<lambda>s. if s = Mute Word then BadRequest else Success)\<rparr>)
     (new_group\<lparr>anti_flood_enabled := False\<rparr>) [''spam''] (text_message ''this is SPAM'') row_2
   = Return (Some (row_2\<lparr>warns := 3\<rparr>))
       [Request (DeleteMessage 100 1),
        Request (SendMessage 100 (WordWarning ''spam'' 3)),
        Log \<lparr>log_group_id = 100, admin_id = 1, action = ''auto_warn_forbidden_word'',
             target_user_id = Some 7, log_reason = Some (UsedForbiddenWord ''spam'')\<rparr>,
        Request (RestrictMute 100 7 3600000000)]"
  by (simp add: moderate_def rules_def system_cleanup_def muted_check_def anti_flood_def
      word_filter_def auto_warn_def escalate_def calm_def new_group_def text_message_def
      row_2_def new_group_user_def lower_def lower_char_def sublist_Cons_right
      is_bot_admin_def is_admin_status_def delete_message_def log_admin_action_def
      mute_duration_def)

text \<open>
  C6, amended. When the restrict request for a mute raises (a permission error or any
  other \<open>TelegramError\<close>), \<open>is_muted\<close> and \<open>mute_until\<close> are not set and the warn count keeps
  the increment already committed. No audit row is written for the failed mute (the
  audit table has no success flag). In the message pipeline nothing more is sent: the
  handler ends after the request. \<open>/warn\<close> answers the admin with the warning text
  followed by the error.
\<close>

theorem failed_mute:
  "(api e (WarnDelete (rule_of v)) = Success \<and> api e (WarnMessage (rule_of v)) = Success \<and>
    warns r + 1 < ban_on_warn_count g \<and> mute_on_warn_count g \<le> warns r + 1 \<and>
    api e (Mute (rule_of v)) \<noteq> Success \<longrightarrow>
      auto_warn e g m v r =
        Return (Some (r\<lparr>warns := warns r + 1\<rparr>))
          [delete_message m,
           Request (SendMessage (chat_id m) (warn_notice v (warns r + 1))),
           log_admin_action (chat_id m) (bot_id e) (warn_action v) (Some (from_user m))
             (Some (warn_reason v)),
           Request (RestrictMute (chat_id m) (from_user m) (localnow e + mute_duration))])
   \<and> (warns r' < bw \<and> mw \<le> warns r' \<and> api e CmdMute \<noteq> Success \<longrightarrow>
        warn_escalate e w c t r' mw bw =
          w\<lparr>history := history w @
              [Request (RestrictMute (cmd_chat c) t (localnow e + mute_duration)),
               Request (ReplyText (WarnReply [Warned (warns r') (cmd_reason c),
                 MuteFailed (api e CmdMute)]))]\<rparr>)"
  by (simp add: auto_warn_def escalate_def warn_escalate_def)

theorem failed_mute_witness:
  "api (calm\<lparr>api := (\<lambda>s. if s = Mute Flood \<or> s = CmdMute then BadRequest else Success)\<rparr>)
     (Mute (rule_of Flooding)) = BadRequest
   \<and> warns row_2 + 1 < ban_on_warn_count new_group
   \<and> mute_on_warn_count new_group \<le> warns row_2 + 1
   \<and> auto_warn
        (calm\<lparr>api := (\<lambda>s. if s = Mute Flood \<or> s = CmdMute then BadRequest else Success)\<rparr>)
        new_group (text_message ''hi'') Flooding row_2
      = Return (Some (row_2\<lparr>warns := 3\<rparr>))
          [Request (DeleteMessage 100 1),
           Request (SendMessage 100 (FloodWarning 3)),
           Log \<lparr>log_group_id = 100, admin_id = 1, action = ''auto_warn_flood'',
                target_user_id = Some 7, log_reason = Some (Text ''Flooding detected'')\<rparr>,
           Request (RestrictMute 100 7 3600000000)]
   \<and> warn_escalate
        (calm\<lparr>api := (\<lambda>s. if s = Mute Flood \<or> s = CmdMute then BadRequest else Success)\<rparr>)
        empty_world warn_7 7 (row_2\<lparr>warns := 3\<rparr>) 3 5
      = empty_world\<lparr>history :=
          [Request (RestrictMute 100 7 3600000000),
           Request (ReplyText (WarnReply [Warned 3 None, MuteFailed BadRequest]))]\<rparr>"
  using failed_mute [of
      "calm\<lparr>api := (\<lambda>s. if s = Mute Flood \<or> s = CmdMute then BadRequest else Success)\<rparr>"
      Flooding row_2 new_group "text_message ''hi''" "row_2\<lparr>warns := 3\<rparr>" 5 3
      empty_world warn_7 7]
  by (simp add: calm_def row_2_def new_group_user_def new_group_def text_message_def
      delete_message_def log_admin_action_def mute_duration_def warn_7_def empty_world_def)

subsection \<open>A mute that has run out\<close>

text \<open>
  C7, as the claim states it, fails when the bot is not administrator of the group: the
  handler only logs that it cannot unmute, the row stays muted, and the rules run on it.
\<close>

theorem expired_mute_counterexample:
  "mute_expired (calm\<lparr>utcnow := 10, bot_member := (\<lambda>k. Some MEMBER)\<rparr>) (row_muted (Some 5))
   \<and> moderate (calm\<lparr>utcnow := 10, bot_member := (\<lambda>k. Some MEMBER)\<rparr>) new_group []
        (text_message ''hello'') (row_muted (Some 5))
      = Proceed ((row_muted (Some 5))\<lparr>message_count_in_interval := 1,
          last_message_time := Some 10\<rparr>) []"
  by (simp add: moderate_def rules_def system_cleanup_def muted_check_def anti_flood_def
      word_filter_def media_locks_def calm_def new_group_def text_message_def
      mute_expired_def row_muted_def new_group_user_def lower_def lower_char_def
      flood_count_def within_interval_def has_text_def is_bot_admin_def is_admin_status_def)

text \<open>
  C7, amended. If a message (not a join or leave notice) arrives from an actor whose row
  is marked muted and whose \<open>mute_until\<close> has passed, and the bot is administrator, the
  handler requests the lifting of the restriction and clears \<open>is_muted\<close> and \<open>mute_until\<close>
  whether or not that request succeeds; if the bot is not administrator the row is left
  as it is. In both cases the message is not deleted as a muted actor's message and the
  flood, forbidden-word and media rules are evaluated on the resulting row.
\<close>

theorem expired_mute_lifted:
  assumes "\<not> new_chat_members m" and "\<not> left_chat_member m"
    and "is_muted r" and "mute_expired e r"
  shows "moderate e g ws m r =
           after (events_of (muted_check e m r))
             (rules e g ws m
                (if is_bot_admin e AtExpired then r\<lparr>is_muted := False, mute_until := None\<rparr>
                 else r))
         \<and> delete_message m \<notin> set (events_of (muted_check e m r))
         \<and> (is_bot_admin e AtExpired \<longrightarrow>
               hd (events_of (muted_check e m r))
                 = Request (RestrictLift (chat_id m) (from_user m)))"
  using assms
  by (simp add: moderate_def system_cleanup_def muted_check_def delete_message_def
      log_admin_action_def)

theorem expired_mute_lifted_witness:
  "is_muted (row_muted (Some 5)) \<and> mute_expired (calm\<lparr>utcnow := 10\<rparr>) (row_muted (Some 5))
   \<and> is_bot_admin (calm\<lparr>utcnow := 10\<rparr>) AtExpired
   \<and> moderate (calm\<lparr>utcnow := 10\<rparr>) new_group [] (text_message ''hello'') (row_muted (Some 5))
      = after
          [Request (RestrictLift 100 7), Request (ReplyText MuteExpired),
           Log \<lparr>log_group_id = 100, admin_id = 1, action = ''auto_unmute'',
                target_user_id = Some 7, log_reason = Some (Text ''Mute expired'')\<rparr>]
          (rules (calm\<lparr>utcnow := 10\<rparr>) new_group [] (text_message ''hello'')
             (new_group_user 100 7))"
  using expired_mute_lifted [of "text_message ''hello''" "row_muted (Some 5)"
      "calm\<lparr>utcnow := 10\<rparr>" new_group "[]"]
  by (simp add: text_message_def row_muted_def new_group_user_def mute_expired_def
      calm_def is_bot_admin_def is_admin_status_def muted_check_def log_admin_action_def)

subsection \<open>The sweep of expired mutes\<close>

lemma sweep_map:
  "sweep j rows =
     (map (\<lambda>r. fst (sweep_row j r)) rows, concat (map (\<lambda>r. snd (sweep_row j r)) rows))"
  by (induction rows) (simp_all split: prod.splits)

lemma warns_sweep_row: "warns (fst (sweep_row j r)) = warns r"
  by (cases "job_unmute j (group_id r, user_id r)") (simp_all add: sweep_row_def)

text \<open>
  C8, as the claim states it, fails when the request to lift the restriction raises
  \<open>BadRequest\<close>: the job clears \<open>is_muted\<close> and \<open>mute_until\<close> all the same, so the next
  sweep does not select the row again.
\<close>

theorem sweep_failure_counterexample:
  "expired_mute (job_now quiet_job) (row_muted (Some 5))
   \<and> group_users (check_expired_mutes (quiet_job\<lparr>job_unmute := (\<lambda>k. BadRequest)\<rparr>)
        (empty_world\<lparr>group_users := [row_muted (Some 5)]\<rparr>))
      = [(row_muted (Some 5))\<lparr>is_muted := False, mute_until := None\<rparr>]
   \<and> history (check_expired_mutes (quiet_job\<lparr>job_unmute := (\<lambda>k. BadRequest)\<rparr>)
        (empty_world\<lparr>group_users := [row_muted (Some 5)]\<rparr>))
      = [Request (RestrictLift 100 7)]"
  by (simp add: check_expired_mutes_def sweep_row_def expired_mute_def quiet_job_def
      row_muted_def new_group_user_def empty_world_def is_admin_status_def)

text \<open>
  C8, amended. When the sweeper's request to lift an expired mute raises a
  \<open>TelegramError\<close> other than \<open>BadRequest\<close>, the row is left exactly as it was, still
  muted and expired, so the next sweep selects it again; when it raises \<open>BadRequest\<close> the
  row's \<open>is_muted\<close> and \<open>mute_until\<close> are cleared as after a success, to prevent repeated
  attempts. A sweep never changes the warn count of any row, nor the number of rows.
\<close>

theorem sweep_failure:
  "map warns (group_users (check_expired_mutes j w)) = map warns (group_users w)
   \<and> length (group_users (check_expired_mutes j w)) = length (group_users w)
   \<and> (\<forall>i < length (group_users w).
        expired_mute (job_now j) (group_users w ! i) \<and>
        is_admin_status
          (job_bot_member j (group_id (group_users w ! i), user_id (group_users w ! i)))
        \<longrightarrow>
          (job_unmute j (group_id (group_users w ! i), user_id (group_users w ! i))
             = OtherTelegramError \<longrightarrow>
             group_users (check_expired_mutes j w) ! i = group_users w ! i)
        \<and> (job_unmute j (group_id (group_users w ! i), user_id (group_users w ! i))
             = BadRequest \<longrightarrow>
             group_users (check_expired_mutes j w) ! i
               = (group_users w ! i)\<lparr>is_muted := False, mute_until := None\<rparr>))"
proof -
  have rows: "group_users (check_expired_mutes j w)
      = map (\<lambda>r. fst (sweep_row j r)) (group_users w)"
    by (simp add: check_expired_mutes_def sweep_map)
  have "map warns (group_users (check_expired_mutes j w)) = map warns (group_users w)"
    by (simp add: rows warns_sweep_row comp_def)
  moreover have "length (group_users (check_expired_mutes j w)) = length (group_users w)"
    by (simp add: rows)
  moreover have "\<forall>i < length (group_users w).
        expired_mute (job_now j) (group_users w ! i) \<and>
        is_admin_status
          (job_bot_member j (group_id (group_users w ! i), user_id (group_users w ! i)))
        \<longrightarrow>
          (job_unmute j (group_id (group_users w ! i), user_id (group_users w ! i))
             = OtherTelegramError \<longrightarrow>
             group_users (check_expired_mutes j w) ! i = group_users w ! i)
        \<and> (job_unmute j (group_id (group_users w ! i), user_id (group_users w ! i))
             = BadRequest \<longrightarrow>
             group_users (check_expired_mutes j w) ! i
               = (group_users w ! i)\<lparr>is_muted := False, mute_until := None\<rparr>)"
    by (simp add: rows sweep_row_def)
  ultimately show ?thesis by blast
qed

theorem sweep_failure_witness:
  "(0::nat) < length [row_muted (Some 5), (row_muted (Some 6))\<lparr>user_id := 8, warns := 2\<rparr>]
   \<and> expired_mute 100 (row_muted (Some 5))
   \<and> expired_mute 100 ((row_muted (Some 6))\<lparr>user_id := 8, warns := 2\<rparr>)
   \<and> group_users (check_expired_mutes
        (quiet_job\<lparr>job_unmute :=
           (\<lambda>k. if k = (100, 7) then OtherTelegramError else BadRequest)\<rparr>)
        (empty_world\<lparr>group_users :=
           [row_muted (Some 5), (row_muted (Some 6))\<lparr>user_id := 8, warns := 2\<rparr>]\<rparr>))
      = [row_muted (Some 5),
         (row_muted (Some 6))\<lparr>user_id := 8, warns := 2, is_muted := False,
            mute_until := None\<rparr>]"
  using sweep_failure [of
      "quiet_job\<lparr>job_unmute :=
           (\<lambda>k. if k = (100, 7) then OtherTelegramError else BadRequest)\<rparr>"
      "empty_world\<lparr>group_users :=
           [row_muted (Some 5), (row_muted (Some 6))\<lparr>user_id := 8, warns := 2\<rparr>]\<rparr>"]
  by (simp add: check_expired_mutes_def sweep_row_def expired_mute_def quiet_job_def
      row_muted_def new_group_user_def empty_world_def is_admin_status_def)

subsection \<open>Rows that break the invariants\<close>

text \<open>
  C9, as the claim states it, fails: a row that is muted with no \<open>mute_until\<close> is not
  clamped. The handler treats the actor as muted, deletes the message and leaves the
  row as it found it.
\<close>

theorem no_clamping_counterexample:
  "is_muted (row_muted None) \<and> mute_until (row_muted None) = None
   \<and> moderate calm new_group [] (text_message ''hello'') (row_muted None)
      = Return (Some (row_muted None)) [Request (DeleteMessage 100 1)]"
  by (simp add: moderate_def system_cleanup_def muted_check_def calm_def text_message_def
      mute_expired_def row_muted_def new_group_user_def is_bot_admin_def
      is_admin_status_def delete_message_def)

text \<open>
  C9, amended. The code never clamps a loaded row; it uses the stored values as they
  are. A row that is muted with no \<open>mute_until\<close> counts as muted without end: the message
  (not a join or leave notice) is deleted when the bot is administrator and the row is
  left unchanged. A warn adds 1 to the stored warn count whatever its sign. \<open>/unwarn\<close>
  leaves a row whose warn count is zero or negative unchanged.
\<close>

theorem state_used_as_loaded:
  "(\<not> new_chat_members m \<and> \<not> left_chat_member m \<and> is_muted r \<and> mute_until r = None \<longrightarrow>
      moderate e g ws m r =
        Return (Some r) (if is_bot_admin e AtMuted then [delete_message m] else []))
   \<and> (api e (WarnDelete (rule_of v)) = Success \<and> final_row (auto_warn e g m v r) = Some r'
        \<longrightarrow> warns r' = warns r + 1)
   \<and> (query_group_user (group_users w) (cmd_chat c) t = Some r \<and> warns r \<le> 0
        \<and> cmd_target c = Some t \<longrightarrow>
        group_users (unwarn_command e w c) = group_users w)"
proof (intro conjI)
  show "\<not> new_chat_members m \<and> \<not> left_chat_member m \<and> is_muted r \<and> mute_until r = None \<longrightarrow>
      moderate e g ws m r =
        Return (Some r) (if is_bot_admin e AtMuted then [delete_message m] else [])"
    by (simp add: moderate_def system_cleanup_def muted_check_def mute_expired_def)
next
  show "api e (WarnDelete (rule_of v)) = Success \<and> final_row (auto_warn e g m v r) = Some r'
        \<longrightarrow> warns r' = warns r + 1"
    by (auto simp: auto_warn_def escalate_def split: if_splits)
next
  show "query_group_user (group_users w) (cmd_chat c) t = Some r \<and> warns r \<le> 0
        \<and> cmd_target c = Some t \<longrightarrow>
        group_users (unwarn_command e w c) = group_users w"
    by (simp add: unwarn_command_def reply_text_def)
qed

theorem state_used_as_loaded_witness:
  "is_muted ((row_muted None)\<lparr>warns := - 4\<rparr>) \<and> mute_until ((row_muted None)\<lparr>warns := - 4\<rparr>) = None
   \<and> moderate calm new_group [] (text_message ''hello'') ((row_muted None)\<lparr>warns := - 4\<rparr>)
      = Return (Some ((row_muted None)\<lparr>warns := - 4\<rparr>)) [Request (DeleteMessage 100 1)]
   \<and> final_row (auto_warn calm new_group (text_message ''hello'') Flooding
        ((row_muted None)\<lparr>warns := - 4\<rparr>))
      = Some ((row_muted None)\<lparr>warns := - 3\<rparr>)
   \<and> query_group_user [(row_muted None)\<lparr>warns := - 4\<rparr>] 100 7
      = Some ((row_muted None)\<lparr>warns := - 4\<rparr>)
   \<and> group_users (unwarn_command calm
        (empty_world\<lparr>group_users := [(row_muted None)\<lparr>warns := - 4\<rparr>]\<rparr>) warn_7)
      = [(row_muted None)\<lparr>warns := - 4\<rparr>]"
  using state_used_as_loaded [of "text_message ''hello''" "(row_muted None)\<lparr>warns := - 4\<rparr>"
      calm new_group "[]" Flooding "(row_muted None)\<lparr>warns := - 3\<rparr>"
      "empty_world\<lparr>group_users := [(row_muted None)\<lparr>warns := - 4\<rparr>]\<rparr>" warn_7 7]
  by (simp add: text_message_def row_muted_def new_group_user_def calm_def
      is_bot_admin_def is_admin_status_def delete_message_def auto_warn_def escalate_def
      new_group_def query_group_user_def row_of_def empty_world_def warn_7_def)

subsection \<open>State after a ban\<close>

text \<open>
  C2 holds for the automatic bans, but \<open>/ban\<close> misses it on one path. The command bans
  first and then passes the result of \<open>get_user_info_from_telegram\<close> to
  \<open>get_or_create_user\<close> without the check for \<open>None\<close> that \<open>warn_command\<close> makes; when the
  lookup fails the handler is left by a \<open>TypeError\<close> before it deletes the row. Here the
  ban request succeeds and the row with 2 warns is still there afterwards, so the next
  get-or-create returns it instead of a fresh row.
\<close>

theorem ban_command_keeps_row:
  "api calm CmdBan = Success
   \<and> history (ban_command calm (empty_world\<lparr>group_users := [row_2]\<rparr>)
        (warn_7\<lparr>target_info := False\<rparr>))
      = [Request (BanChatMember 100 7)]
   \<and> fst (get_or_create_group_user
        (ban_command calm (empty_world\<lparr>group_users := [row_2]\<rparr>)
           (warn_7\<lparr>target_info := False\<rparr>)) 100 7)
      = (new_group_user 100 7)\<lparr>warns := 2\<rparr>"
  by (simp add: ban_command_def calm_def warn_7_def empty_world_def row_2_def
      new_group_user_def is_user_admin_or_owner_def is_admin_status_def
      get_or_create_group_user_def query_group_user_def row_of_def)

subsection \<open>One warn per warning\<close>

lemma warnings_Nil [simp]: "warnings [] = 0"
  by (simp add: warnings_def)

lemma counts_once_then:
  assumes "counts_once g n k f"
    and "\<And>r1. warns r1 = n \<Longrightarrow> row_key r1 = k \<Longrightarrow> counts_once g n k (h r1)"
  shows "counts_once g n k (then_stage f h)"
proof (cases f)
  case (Proceed r1 es1)
  with assms(1) have a: "warnings es1 = 0" "warns r1 = n" "row_key r1 = k"
    by (simp_all add: counts_once_def)
  from assms(2) [OF a(2,3)] have b: "counts_once g n k (h r1)" .
  show ?thesis
  proof (cases "h r1")
    case p: (Proceed r2 es2)
    with a b Proceed show ?thesis by (simp add: counts_once_def)
  next
    case q: (Return ro es2)
    with a b Proceed show ?thesis by (simp add: counts_once_def)
  qed
next
  case (Return ro es)
  with assms(1) show ?thesis by (simp add: counts_once_def)
qed

lemma counts_system: "counts_once g (warns r) (row_key r) (system_cleanup e m r)"
  by (cases "api e SystemDelete")
    (simp_all add: counts_once_def system_cleanup_def warnings_def delete_message_def)

lemma counts_muted: "counts_once g (warns r) (row_key r) (muted_check e m r)"
  by (simp add: counts_once_def muted_check_def warnings_def delete_message_def
      log_admin_action_def row_key_def)

lemma counts_media: "counts_once g (warns r) (row_key r) (media_locks e g m r)"
  by (cases "locked_media g m")
    (simp_all add: counts_once_def media_locks_def warnings_def delete_message_def
      log_admin_action_def)

lemma escalate_below:
  "warns r < ban_on_warn_count g \<Longrightarrow> warns r < mute_on_warn_count g \<Longrightarrow>
   escalate e g m v r = Return (Some r) []"
  by (simp add: escalate_def)

lemma auto_warn_below:
  assumes "0 < warnings (events_of (auto_warn e g m v r))"
    and "warns r + 1 < ban_on_warn_count g" and "warns r + 1 < mute_on_warn_count g"
  shows "final_row (auto_warn e g m v r) = Some (r\<lparr>warns := warns r + 1\<rparr>)"
proof (cases "api e (WarnDelete (rule_of v)) = Success")
  case False
  with assms(1) show ?thesis
    by (simp add: auto_warn_def warnings_def delete_message_def)
next
  case True
  have "escalate e g m v (r\<lparr>warns := warns r + 1\<rparr>)
      = Return (Some (r\<lparr>warns := warns r + 1\<rparr>)) []"
    using assms(2,3) by (simp add: escalate_below)
  with True show ?thesis by (simp add: auto_warn_def)
qed

lemma counts_auto_warn: "counts_once g (warns r) (row_key r) (auto_warn e g m v r)"
proof -
  have p: "\<And>r' es. auto_warn e g m v r \<noteq> Proceed r' es"
  proof
    fix r' es
    assume "auto_warn e g m v r = Proceed r' es"
    with auto_warn_returns [of e g m v r] show False by simp
  qed
  have q: "0 < warnings (events_of (auto_warn e g m v r)) \<and>
        warns r + 1 < ban_on_warn_count g \<and> warns r + 1 < mute_on_warn_count g \<longrightarrow>
      (\<exists>r'. final_row (auto_warn e g m v r) = Some r' \<and> warns r' = warns r + 1
         \<and> row_key r' = row_key r)"
  proof
    assume a: "0 < warnings (events_of (auto_warn e g m v r)) \<and>
        warns r + 1 < ban_on_warn_count g \<and> warns r + 1 < mute_on_warn_count g"
    then have "final_row (auto_warn e g m v r) = Some (r\<lparr>warns := warns r + 1\<rparr>)"
      by (simp add: auto_warn_below)
    then show "\<exists>r'. final_row (auto_warn e g m v r) = Some r' \<and> warns r' = warns r + 1
         \<and> row_key r' = row_key r"
      by (simp add: row_key_def)
  qed
  show ?thesis unfolding counts_once_def using p q by blast
qed

lemma flood_count_keeps:
  "warns (flood_count g now r) = warns r" "row_key (flood_count g now r) = row_key r"
  by (simp_all add: flood_count_def row_key_def)

lemma counts_flood: "counts_once g (warns r) (row_key r) (anti_flood e g m r)"
proof (cases "anti_flood_enabled g \<and> has_text m")
  case False
  then show ?thesis by (auto simp: anti_flood_def counts_once_def)
next
  case on: True
  show ?thesis
  proof (cases "anti_flood_limit g < message_count_in_interval (flood_count g (utcnow e) r)")
    case False
    with on show ?thesis by (simp add: anti_flood_def counts_once_def flood_count_keeps)
  next
    case over: True
    show ?thesis
    proof (cases "is_bot_admin e AtFlood")
      case False
      with on over show ?thesis by (simp add: anti_flood_def counts_once_def)
    next
      case True
      have "counts_once g (warns (flood_count g (utcnow e) r))
          (row_key (flood_count g (utcnow e) r))
          (auto_warn e g m Flooding (flood_count g (utcnow e) r))"
        by (rule counts_auto_warn)
      then have "counts_once g (warns r) (row_key r)
          (auto_warn e g m Flooding (flood_count g (utcnow e) r))"
        by (simp only: flood_count_keeps)
      with on over True show ?thesis by (simp add: anti_flood_def)
    qed
  qed
qed

lemma counts_word: "counts_once g (warns r) (row_key r) (word_filter e g ws m r)"
proof (cases "msg_text m")
  case None
  then show ?thesis by (simp add: word_filter_def counts_once_def)
next
  case (Some t)
  show ?thesis
  proof (cases "t = [] \<or> first_forbidden ws (lower t) = None")
    case True
    with Some show ?thesis by (auto simp: word_filter_def counts_once_def)
  next
    case False
    then obtain word where w: "first_forbidden ws (lower t) = Some word" "t \<noteq> []"
      by auto
    show ?thesis
    proof (cases "is_bot_admin e AtWord")
      case True
      with Some w show ?thesis
        using counts_auto_warn [of g r e m "ForbiddenWord word"]
        by (simp add: word_filter_def)
    next
      case False
      with Some w show ?thesis by (simp add: word_filter_def counts_once_def)
    qed
  qed
qed

lemma counts_rules: "counts_once g (warns r) (row_key r) (rules e g ws m r)"
  unfolding rules_def
proof (rule counts_once_then)
  show "counts_once g (warns r) (row_key r)
      (then_stage (anti_flood e g m r) (word_filter e g ws m))"
  proof (rule counts_once_then)
    show "counts_once g (warns r) (row_key r) (anti_flood e g m r)"
      by (rule counts_flood)
  next
    fix r1
    assume "warns r1 = warns r" "row_key r1 = row_key r"
    then show "counts_once g (warns r) (row_key r) (word_filter e g ws m r1)"
      using counts_word [of g r1 e ws m] by simp
  qed
next
  fix r1
  assume "warns r1 = warns r" "row_key r1 = row_key r"
  then show "counts_once g (warns r) (row_key r) (media_locks e g m r1)"
    using counts_media [of g r1 e m] by simp
qed

lemma counts_moderate: "counts_once g (warns r) (row_key r) (moderate e g ws m r)"
  unfolding moderate_def
proof (rule counts_once_then)
  show "counts_once g (warns r) (row_key r)
      (then_stage (system_cleanup e m r) (muted_check e m))"
  proof (rule counts_once_then)
    show "counts_once g (warns r) (row_key r) (system_cleanup e m r)"
      by (rule counts_system)
  next
    fix r1
    assume "warns r1 = warns r" "row_key r1 = row_key r"
    then show "counts_once g (warns r) (row_key r) (muted_check e m r1)"
      using counts_muted [of g r1 e m] by simp
  qed
next
  fix r1
  assume "warns r1 = warns r" "row_key r1 = row_key r"
  then show "counts_once g (warns r) (row_key r) (rules e g ws m r1)"
    using counts_rules [of g r1 e ws m] by simp
qed

subsection \<open>Consecutive violations\<close>

lemma find_holds: "find P xs = Some x \<Longrightarrow> P x"
  by (induction xs) (simp_all split: if_splits)

lemma find_snoc: "find P xs = None \<Longrightarrow> P x \<Longrightarrow> find P (xs @ [x]) = Some x"
  by (induction xs) (simp_all split: if_splits)

lemma query_commit_row:
  "query_group_user rows c u = Some r0 \<Longrightarrow> row_of c u r' \<Longrightarrow>
   query_group_user (commit_row c u r' rows) c u = Some r'"
  by (induction rows) (simp_all add: query_group_user_def split: if_splits)

lemma row_of_new: "row_of c u (new_group_user c u)"
  by (simp add: row_of_def new_group_user_def)

lemma query_after_get:
  "query_group_user (group_users (snd (get_or_create_group_user w c u))) c u
     = Some (fst (get_or_create_group_user w c u))"
proof (cases "query_group_user (group_users w) c u")
  case None
  then show ?thesis
    by (simp add: get_or_create_group_user_def query_group_user_def find_snoc row_of_new)
next
  case (Some r)
  then show ?thesis by (simp add: get_or_create_group_user_def)
qed

lemma row_of_get: "row_of c u (fst (get_or_create_group_user w c u))"
proof (cases "query_group_user (group_users w) c u")
  case None
  then show ?thesis by (simp add: get_or_create_group_user_def row_of_new)
next
  case (Some r)
  then have "row_of c u r" by (simp add: query_group_user_def find_holds)
  with Some show ?thesis by (simp add: get_or_create_group_user_def)
qed

lemma warn_count_query:
  "query_group_user (group_users w) c u = Some r \<Longrightarrow> warn_count w c u = warns r"
  by (simp add: warn_count_def get_or_create_group_user_def)

lemma get_or_create_group_keeps:
  "group_users (snd (get_or_create_group w c)) = group_users w"
  "history (snd (get_or_create_group w c)) = history w"
  "forbidden_words (snd (get_or_create_group w c)) = forbidden_words w"
  by (simp_all add: get_or_create_group_def split: option.splits)

lemma fst_get_or_create_group_user:
  "group_users w1 = group_users w \<Longrightarrow>
   fst (get_or_create_group_user w1 c u) = fst (get_or_create_group_user w c u)"
  by (simp add: get_or_create_group_user_def split: option.splits)

lemma news_same [simp]: "news w w = []"
  by (simp add: news_def)

lemma handle_all_messages_eq:
  assumes "\<not> exempt e m"
  shows "handle_all_messages e w m =
    (snd (get_or_create_group_user (snd (get_or_create_group w (chat_id m)))
        (chat_id m) (from_user m)))
      \<lparr>group_users :=
         store_row (chat_id m) (from_user m)
           (final_row (moderate e (settings w (chat_id m))
              (get_forbidden_words w (chat_id m)) m
              (fst (get_or_create_group_user w (chat_id m) (from_user m)))))
           (group_users (snd (get_or_create_group_user
              (snd (get_or_create_group w (chat_id m))) (chat_id m) (from_user m)))),
       history := history w @
         events_of (moderate e (settings w (chat_id m))
           (get_forbidden_words w (chat_id m)) m
           (fst (get_or_create_group_user w (chat_id m) (from_user m))))\<rparr>"
proof -
  obtain g w1 where a: "get_or_create_group w (chat_id m) = (g, w1)"
    by (cases "get_or_create_group w (chat_id m)")
  obtain r w2 where b: "get_or_create_group_user w1 (chat_id m) (from_user m) = (r, w2)"
    by (cases "get_or_create_group_user w1 (chat_id m) (from_user m)")
  have k1: "group_users w1 = group_users w" "history w1 = history w"
    "forbidden_words w1 = forbidden_words w"
    using get_or_create_group_keeps [of w "chat_id m"] by (simp_all add: a)
  have k2: "history w2 = history w1" "forbidden_words w2 = forbidden_words w1"
    using get_or_create_group_user_keeps [of w1 "chat_id m" "from_user m"]
    by (simp_all add: b)
  have r: "fst (get_or_create_group_user w (chat_id m) (from_user m)) = r"
    using fst_get_or_create_group_user [OF k1(1), of "chat_id m" "from_user m"]
    by (simp add: b)
  have ws: "get_forbidden_words w2 (chat_id m) = get_forbidden_words w (chat_id m)"
    by (simp add: get_forbidden_words_def k1 k2)
  show ?thesis
    using assms by (simp add: handle_all_messages_def a b k1 k2 r ws settings_def Let_def)
qed

lemma message_step:
  assumes "0 < warnings (news w (handle_all_messages e w m))"
    and "below_thresholds w (chat_id m) (from_user m)"
  shows "warn_count (handle_all_messages e w m) (chat_id m) (from_user m)
           = warn_count w (chat_id m) (from_user m) + 1"
proof -
  define c where "c = chat_id m"
  define u where "u = from_user m"
  define w2 where "w2 = snd (get_or_create_group_user (snd (get_or_create_group w c)) c u)"
  define r where "r = fst (get_or_create_group_user w c u)"
  define out where "out = moderate e (settings w c) (get_forbidden_words w c) m r"
  have ne: "\<not> exempt e m"
  proof
    assume "exempt e m"
    then have "handle_all_messages e w m = w" by (simp add: handle_all_messages_def)
    with assms(1) show False by simp
  qed
  have eq: "handle_all_messages e w m =
      w2\<lparr>group_users := store_row c u (final_row out) (group_users w2),
         history := history w @ events_of out\<rparr>"
    unfolding w2_def r_def out_def c_def u_def by (rule handle_all_messages_eq [OF ne])
  have n: "news w (handle_all_messages e w m) = events_of out"
    by (simp add: eq news_def)
  have wr: "warns r = warn_count w c u"
    by (simp add: r_def warn_count_def)
  have key: "row_of c u r"
    unfolding r_def by (rule row_of_get)
  have r2: "fst (get_or_create_group_user (snd (get_or_create_group w c)) c u) = r"
    unfolding r_def
    by (rule fst_get_or_create_group_user) (simp add: get_or_create_group_keeps)
  have q: "query_group_user (group_users w2) c u = Some r"
    using query_after_get [of "snd (get_or_create_group w c)" c u]
    by (simp add: w2_def r2)
  have "counts_once (settings w c) (warns r) (row_key r) out"
    unfolding out_def by (rule counts_moderate)
  moreover have "0 < warnings (events_of out)"
    using assms(1) by (simp add: n)
  moreover have "warns r + 1 < ban_on_warn_count (settings w c)"
    "warns r + 1 < mute_on_warn_count (settings w c)"
    using assms(2) by (simp_all add: below_thresholds_def wr c_def u_def)
  ultimately obtain r' where r': "final_row out = Some r'" "warns r' = warns r + 1"
      "row_key r' = row_key r"
    unfolding counts_once_def by blast
  have "row_of c u r'"
    using key r'(3) by (simp add: row_of_def row_key_def)
  with q have "query_group_user (commit_row c u r' (group_users w2)) c u = Some r'"
    by (rule query_commit_row)
  then have "query_group_user (group_users (handle_all_messages e w m)) c u = Some r'"
    by (simp add: eq r'(1) store_row_def)
  then have "warn_count (handle_all_messages e w m) c u = warns r'"
    by (rule warn_count_query)
  then show ?thesis
    by (simp add: r'(2) wr c_def u_def)
qed

lemma command_step:
  assumes "warnable e cm u" and "below_thresholds w (cmd_chat cm) u"
  shows "warn_count (warn_command e w cm) (cmd_chat cm) u
           = warn_count w (cmd_chat cm) u + 1"
proof -
  define c where "c = cmd_chat cm"
  define w1 where "w1 = snd (get_or_create_group_user w c u)"
  define r2 where "r2 = (fst (get_or_create_group_user w c u))\<lparr>warns := warn_count w c u + 1\<rparr>"
  have below: "warns r2 < ban_on_warn_count (settings w c)"
    "warns r2 < mute_on_warn_count (settings w c)"
    using assms(2) by (simp_all add: below_thresholds_def r2_def c_def)
  have "warn_command e w cm =
      warn_escalate e
        (w1\<lparr>group_users := commit_row c u r2 (group_users w1),
            history := history w @
              [log_admin_action c (cmd_admin cm) ''warn'' (Some u)
                 (map_option Text (cmd_reason cm))]\<rparr>)
        cm u r2 (mute_on_warn_count (settings w c)) (ban_on_warn_count (settings w c))"
    unfolding w1_def r2_def c_def by (rule warn_command_eq [OF assms(1)])
  then have g: "group_users (warn_command e w cm) = commit_row c u r2 (group_users w1)"
    using below by (simp add: warn_escalate_def)
  have "row_of c u (fst (get_or_create_group_user w c u))"
    by (rule row_of_get)
  then have k: "row_of c u r2"
    by (simp add: r2_def row_of_def)
  have "query_group_user (group_users w1) c u = Some (fst (get_or_create_group_user w c u))"
    unfolding w1_def by (rule query_after_get)
  then have "query_group_user (commit_row c u r2 (group_users w1)) c u = Some r2"
    using k by (rule query_commit_row)
  then have "warn_count (warn_command e w cm) c u = warns r2"
    by (simp add: g warn_count_query)
  then show ?thesis by (simp add: r2_def c_def)
qed

lemma counted_step:
  "counted c u w i \<Longrightarrow> warn_count (deliver w i) c u = warn_count w c u + 1"
proof (cases i)
  case (Message e m)
  assume "counted c u w i"
  with Message show ?thesis using message_step [of w e m] by auto
next
  case (WarnCommand e cm)
  assume "counted c u w i"
  with WarnCommand show ?thesis using command_step [of e cm u w] by auto
qed

text \<open>
  C4, as the claim states it, fails on a locked-media violation: the photo is deleted
  and logged, and the warn count of the sender is still 0 after this one violation.
\<close>

theorem locked_media_not_counted:
  "history (handle_all_messages calm
      (empty_world\<lparr>groups := (\<lambda>c. Some (new_group\<lparr>lock_photos := True\<rparr>))\<rparr>) photo_message)
     = [Request (DeleteMessage 100 1),
        Log \<lparr>log_group_id = 100, admin_id = 1, action = ''delete_locked_media'',
             target_user_id = Some 7, log_reason = Some (Text ''Photo locked'')\<rparr>]
   \<and> warn_count (handle_all_messages calm
      (empty_world\<lparr>groups := (\<lambda>c. Some (new_group\<lparr>lock_photos := True\<rparr>))\<rparr>) photo_message)
      100 7 = 0"
  by (simp add: handle_all_messages_def exempt_def is_user_admin_or_owner_def
      is_admin_status_def calm_def empty_world_def photo_message_def text_message_def
      get_or_create_group_def get_or_create_group_user_def query_group_user_def
      get_forbidden_words_def new_group_user_def new_group_def row_of_def
      moderate_def rules_def system_cleanup_def muted_check_def anti_flood_def
      has_text_def word_filter_def media_locks_def locked_media_def is_bot_admin_def
      delete_message_def log_admin_action_def store_row_def warn_count_def)

text \<open>
  C4, amended. For every actor and every N, N counted violations in a row, each of them
  either a message for which the pipeline sends a warning (a flood or forbidden-word
  message that the bot, being administrator, managed to delete) or a \<open>/warn\<close> that passes
  the checks on the actor, and none of them reaching the mute or the ban threshold,
  raise the actor's warn count by exactly N; from a fresh state it is N. Locked-media
  violations never change the warn count.
\<close>

theorem warns_count_violations:
  "all_counted c u w is \<Longrightarrow>
   warn_count (foldl deliver w is) c u = warn_count w c u + int (length is)"
proof (induction "is" arbitrary: w)
  case Nil
  then show ?case by simp
next
  case (Cons i "is")
  then have "warn_count (deliver w i) c u = warn_count w c u + 1"
    by (simp add: counted_step)
  moreover have "warn_count (foldl deliver (deliver w i) is) c u
      = warn_count (deliver w i) c u + int (length is)"
    using Cons by simp
  ultimately show ?case by simp
qed

theorem warns_count_violations_witness:
  "all_counted 100 7 (empty_world\<lparr>forbidden_words := [(100, ''spam'')]\<rparr>)
     [Message calm (text_message ''this is SPAM''), WarnCommand calm warn_7]
   \<and> warn_count (empty_world\<lparr>forbidden_words := [(100, ''spam'')]\<rparr>) 100 7 = 0
   \<and> warn_count
        (foldl deliver (empty_world\<lparr>forbidden_words := [(100, ''spam'')]\<rparr>)
           [Message calm (text_message ''this is SPAM''), WarnCommand calm warn_7])
        100 7 = 2"
proof -
  have a: "all_counted 100 7 (empty_world\<lparr>forbidden_words := [(100, ''spam'')]\<rparr>)
     [Message calm (text_message ''this is SPAM''), WarnCommand calm warn_7]"
    by (simp add: handle_all_messages_def exempt_def is_user_admin_or_owner_def
      is_admin_status_def calm_def empty_world_def text_message_def warn_7_def
      get_or_create_group_def get_or_create_group_user_def query_group_user_def
      get_forbidden_words_def new_group_user_def new_group_def row_of_def
      moderate_def rules_def system_cleanup_def muted_check_def anti_flood_def
      flood_count_def within_interval_def has_text_def word_filter_def auto_warn_def
      escalate_def lower_def lower_char_def sublist_Cons_right is_bot_admin_def
      delete_message_def log_admin_action_def store_row_def warn_count_def news_def
      warnings_def below_thresholds_def settings_def warnable_def)
  have b: "warn_count (empty_world\<lparr>forbidden_words := [(100, ''spam'')]\<rparr>) 100 7 = 0"
    by (simp add: warn_count_def get_or_create_group_user_def query_group_user_def
        empty_world_def new_group_user_def)
  show ?thesis
    using warns_count_violations [OF a] a b by simp
qed

subsection \<open>Forbidden words\<close>

lemma lower_char_idem: "lower_char (lower_char c) = lower_char c"
  by (cases c) (auto simp: lower_char_def)

lemma lower_idem: "lower (lower s) = lower s"
  by (simp add: lower_def lower_char_idem)

text \<open>Every word that \<open>add_forbidden_word\<close> stores is in lower case.\<close>

lemma add_forbidden_word_lower:
  assumes "\<forall>fw \<in> set (forbidden_words w). lower (snd fw) = snd fw"
  shows "\<forall>fw \<in> set (forbidden_words (snd (add_forbidden_word w g word))).
           lower (snd fw) = snd fw"
  using assms by (simp add: add_forbidden_word_def lower_idem)

lemma get_forbidden_words_lower:
  assumes "\<forall>fw \<in> set (forbidden_words w). lower (snd fw) = snd fw"
  shows "\<forall>word \<in> set (get_forbidden_words w g). lower word = word"
  using assms by (auto simp: get_forbidden_words_def)

lemma first_forbidden_spec:
  "\<forall>word \<in> set ws. lower word = word \<Longrightarrow>
   first_forbidden ws (lower t) = spec_forbidden_word ws t"
  by (induction ws) (simp_all add: spec_forbidden_word_def)

lemma after_Nil [simp]: "after [] f = f"
  by (cases f) simp_all

lemma then_stage_Proceed: "then_stage (Proceed r es) h = after es (h r)"
  by simp

lemma then_stage_after: "then_stage (after es f) h = after es (then_stage f h)"
  by (cases f; cases "h (case f of Proceed r _ \<Rightarrow> r)") simp_all

lemma then_stage_assoc:
  "then_stage (then_stage f h) k = then_stage f (\<lambda>r. then_stage (h r) k)"
proof (cases f)
  case (Proceed r es)
  then show ?thesis by (simp add: then_stage_after)
next
  case (Return ro es)
  then show ?thesis by simp
qed

lemma escalate_row:
  "(final_row (escalate e g m v r) = None \<and> ban_on_warn_count g \<le> warns r)
   \<or> (\<exists>r'. final_row (escalate e g m v r) = Some r' \<and> warns r' = warns r)"
  by (simp add: escalate_def)

lemma auto_warn_deleted:
  assumes "api e (WarnDelete (rule_of v)) = Success"
  shows "delete_message m \<in> set (events_of (auto_warn e g m v r))"
    and "Request (SendMessage (chat_id m) (warn_notice v (warns r + 1)))
           \<in> set (events_of (auto_warn e g m v r))"
    and "(final_row (auto_warn e g m v r) = None \<and> ban_on_warn_count g \<le> warns r + 1)
         \<or> (\<exists>r'. final_row (auto_warn e g m v r) = Some r' \<and> warns r' = warns r + 1)"
proof -
  show "delete_message m \<in> set (events_of (auto_warn e g m v r))"
    using assms by (simp add: auto_warn_def)
  show "Request (SendMessage (chat_id m) (warn_notice v (warns r + 1)))
           \<in> set (events_of (auto_warn e g m v r))"
    using assms by (simp add: auto_warn_def)
  show "(final_row (auto_warn e g m v r) = None \<and> ban_on_warn_count g \<le> warns r + 1)
         \<or> (\<exists>r'. final_row (auto_warn e g m v r) = Some r' \<and> warns r' = warns r + 1)"
  proof (cases "api e (WarnMessage (rule_of v)) = Success")
    case True
    then show ?thesis
      using assms escalate_row [of e g m v "r\<lparr>warns := warns r + 1\<rparr>"]
      by (simp add: auto_warn_def)
  next
    case False
    then show ?thesis using assms by (simp add: auto_warn_def)
  qed
qed

lemma counts_before_words:
  "counts_once g (warns r) (row_key r)
     (then_stage (then_stage (system_cleanup e m r) (muted_check e m)) (anti_flood e g m))"
proof (rule counts_once_then)
  show "counts_once g (warns r) (row_key r)
      (then_stage (system_cleanup e m r) (muted_check e m))"
  proof (rule counts_once_then)
    show "counts_once g (warns r) (row_key r) (system_cleanup e m r)"
      by (rule counts_system)
  next
    fix r1
    assume "warns r1 = warns r" "row_key r1 = row_key r"
    then show "counts_once g (warns r) (row_key r) (muted_check e m r1)"
      using counts_muted [of g r1 e m] by simp
  qed
next
  fix r1
  assume "warns r1 = warns r" "row_key r1 = row_key r"
  then show "counts_once g (warns r) (row_key r) (anti_flood e g m r1)"
    using counts_flood [of g r1 e m] by simp
qed

lemma moderate_words:
  assumes "then_stage (then_stage (system_cleanup e m r0) (muted_check e m))
             (anti_flood e g m) = Proceed r es"
  shows "moderate e g ws m r0
           = after es (then_stage (word_filter e g ws m r) (media_locks e g m))"
proof -
  have rules_eq: "rules e g ws m =
      (\<lambda>r. then_stage (then_stage (anti_flood e g m r) (word_filter e g ws m))
         (media_locks e g m))"
    by (rule ext) (simp add: rules_def)
  have "moderate e g ws m r0 =
      then_stage
        (then_stage
           (then_stage (then_stage (system_cleanup e m r0) (muted_check e m))
              (anti_flood e g m))
           (word_filter e g ws m))
        (media_locks e g m)"
    by (simp only: moderate_def rules_eq then_stage_assoc)
  then show ?thesis
    by (simp only: assms then_stage_Proceed then_stage_after)
qed

text \<open>
  C5 fails as stated when the bot is not an administrator of the chat: the word \<open>spam\<close>,
  stored by \<open>add_forbidden_word\<close>, is found in \<open>this is SPAM\<close>, but the handler sends no
  request at all, the message stays and the sender's warn count is still 0.
\<close>

theorem forbidden_word_counterexample:
  "get_forbidden_words (snd (add_forbidden_word empty_world 100 ''Spam'')) 100 = [''spam'']
   \<and> spec_forbidden_word [''spam''] ''this is SPAM'' = Some ''spam''
   \<and> history (handle_all_messages (calm\<lparr>bot_member := (\<lambda>k. Some MEMBER)\<rparr>)
        (snd (add_forbidden_word empty_world 100 ''Spam'')) (text_message ''this is SPAM''))
      = []
   \<and> warn_count (handle_all_messages (calm\<lparr>bot_member := (\<lambda>k. Some MEMBER)\<rparr>)
        (snd (add_forbidden_word empty_world 100 ''Spam'')) (text_message ''this is SPAM''))
        100 7 = 0"
  by (simp add: handle_all_messages_def exempt_def is_user_admin_or_owner_def
      is_admin_status_def calm_def empty_world_def text_message_def
      add_forbidden_word_def spec_forbidden_word_def
      get_or_create_group_def get_or_create_group_user_def query_group_user_def
      get_forbidden_words_def new_group_user_def new_group_def row_of_def
      moderate_def rules_def system_cleanup_def muted_check_def anti_flood_def
      flood_count_def within_interval_def has_text_def word_filter_def media_locks_def
      locked_media_def lower_def lower_char_def sublist_Cons_right is_bot_admin_def
      store_row_def warn_count_def)

text \<open>
  C5, amended. The forbidden words of a group are stored in lower case, and for a
  non-empty text the word that section 6.4 finds is the first stored word whose lower-case
  form occurs in the lower-cased text. When the earlier sections (system messages, muted
  sender, anti-flood) let the message through, the bot is administrator of the chat and
  the deletion succeeds, a message with a match is handled as a forbidden-word
  violation: its deletion is requested, the warning for that word carries the old warn
  count plus one, and the row is stored with that count unless the ban threshold was
  reached and the row was deleted. A message without a match goes on to the media locks.
\<close>

theorem forbidden_word_filter:
  assumes "\<forall>word \<in> set ws. lower word = word"
    and "msg_text m = Some t" and "t \<noteq> []"
    and "then_stage (then_stage (system_cleanup e m r0) (muted_check e m))
           (anti_flood e g m) = Proceed r es"
    and "is_bot_admin e AtWord" and "api e (WarnDelete Word) = Success"
  shows "first_forbidden ws (lower t) = spec_forbidden_word ws t
     \<and> (case spec_forbidden_word ws t of
          None \<Rightarrow> moderate e g ws m r0 = after es (media_locks e g m r)
        | Some word \<Rightarrow>
            moderate e g ws m r0 = after es (auto_warn e g m (ForbiddenWord word) r)
            \<and> delete_message m \<in> set (events_of (moderate e g ws m r0))
            \<and> Request (SendMessage (chat_id m) (WordWarning word (warns r0 + 1)))
                 \<in> set (events_of (moderate e g ws m r0))
            \<and> ((final_row (moderate e g ws m r0) = None
                   \<and> ban_on_warn_count g \<le> warns r0 + 1)
                \<or> (\<exists>r'. final_row (moderate e g ws m r0) = Some r'
                      \<and> warns r' = warns r0 + 1)))"
proof -
  have spec: "first_forbidden ws (lower t) = spec_forbidden_word ws t"
    using assms(1) by (rule first_forbidden_spec)
  have m: "moderate e g ws m r0
      = after es (then_stage (word_filter e g ws m r) (media_locks e g m))"
    using assms(4) by (rule moderate_words)
  have "counts_once g (warns r0) (row_key r0)
      (then_stage (then_stage (system_cleanup e m r0) (muted_check e m)) (anti_flood e g m))"
    by (rule counts_before_words)
  then have wr: "warns r = warns r0"
    by (simp add: counts_once_def assms(4))
  show ?thesis
  proof (cases "spec_forbidden_word ws t")
    case None
    then have "word_filter e g ws m r = Proceed r []"
      using assms(2,3) spec by (simp add: word_filter_def)
    then have "moderate e g ws m r0 = after es (media_locks e g m r)"
      using m by simp
    with None spec show ?thesis by simp
  next
    case (Some word)
    then have wf: "word_filter e g ws m r = auto_warn e g m (ForbiddenWord word) r"
      using assms(2,3,5) spec by (simp add: word_filter_def)
    have ret: "auto_warn e g m (ForbiddenWord word) r
        = Return (final_row (auto_warn e g m (ForbiddenWord word) r))
            (events_of (auto_warn e g m (ForbiddenWord word) r))"
      by (rule auto_warn_returns)
    have "then_stage (auto_warn e g m (ForbiddenWord word) r) (media_locks e g m)
        = auto_warn e g m (ForbiddenWord word) r"
      by (subst ret, subst (3) ret) simp
    then have eq: "moderate e g ws m r0 = after es (auto_warn e g m (ForbiddenWord word) r)"
      using m wf by simp
    have d: "api e (WarnDelete (rule_of (ForbiddenWord word))) = Success"
      using assms(6) by simp
    note aw = auto_warn_deleted [OF d, where m = m and g = g and r = r]
    have e1: "delete_message m \<in> set (events_of (moderate e g ws m r0))"
      using aw(1) by (simp add: eq)
    have e2: "Request (SendMessage (chat_id m) (WordWarning word (warns r0 + 1)))
        \<in> set (events_of (moderate e g ws m r0))"
      using aw(2) by (simp add: eq wr)
    have e3: "(final_row (moderate e g ws m r0) = None
          \<and> ban_on_warn_count g \<le> warns r0 + 1)
        \<or> (\<exists>r'. final_row (moderate e g ws m r0) = Some r' \<and> warns r' = warns r0 + 1)"
      using aw(3) by (simp add: eq wr)
    from Some spec eq e1 e2 e3 show ?thesis by simp
  qed
qed

theorem forbidden_word_filter_witness:
  "get_forbidden_words (snd (add_forbidden_word empty_world 100 ''Spam'')) 100 = [''spam'']
   \<and> lower ''spam'' = ''spam''
   \<and> msg_text (text_message ''this is SPAM'') = Some ''this is SPAM''
   \<and> then_stage
        (then_stage (system_cleanup calm (text_message ''this is SPAM'') (new_group_user 100 7))
           (muted_check calm (text_message ''this is SPAM'')))
        (anti_flood calm new_group (text_message ''this is SPAM''))
      = Proceed ((new_group_user 100 7)\<lparr>message_count_in_interval := 1,
           last_message_time := Some 0\<rparr>) []
   \<and> is_bot_admin calm AtWord \<and> api calm (WarnDelete Word) = Success
   \<and> first_forbidden [''spam''] (lower ''this is SPAM'') = Some ''spam''
   \<and> spec_forbidden_word [''spam''] ''this is SPAM'' = Some ''spam''
   \<and> delete_message (text_message ''this is SPAM'')
        \<in> set (events_of (moderate calm new_group [''spam''] (text_message ''this is SPAM'')
             (new_group_user 100 7)))
   \<and> Request (SendMessage 100 (WordWarning ''spam'' 1))
        \<in> set (events_of (moderate calm new_group [''spam''] (text_message ''this is SPAM'')
             (new_group_user 100 7)))
   \<and> map_option warns
        (final_row (moderate calm new_group [''spam''] (text_message ''this is SPAM'')
           (new_group_user 100 7))) = Some 1"
  using forbidden_word_filter [where ws = "[''spam'']"
      and m = "text_message ''this is SPAM''" and t = "''this is SPAM''" and e = calm
      and ?r0.0 = "new_group_user 100 7" and g = new_group
      and r = "(new_group_user 100 7)\<lparr>message_count_in_interval := 1,
           last_message_time := Some 0\<rparr>" and es = "[]"]
  by (simp add: calm_def empty_world_def text_message_def
      add_forbidden_word_def spec_forbidden_word_def
      get_forbidden_words_def new_group_user_def new_group_def
      moderate_def rules_def system_cleanup_def muted_check_def anti_flood_def
      flood_count_def within_interval_def has_text_def word_filter_def auto_warn_def
      escalate_def delete_message_def log_admin_action_def
      lower_def lower_char_def sublist_Cons_right is_bot_admin_def is_admin_status_def)

end
